theory Spec2Isabelle
  imports Main "HOL-Library.Word"
begin

unbundle bit_operations_syntax

section \<open>Errors\<close>

text \<open>
  Every failure of the codec is a thrown \<^verbatim>\<open>basics::error\<close> carrying a message.  The model
  keeps one constructor per kind of failure.  \<open>Undefined\<close> marks the places where the C++
  program has no defined behaviour (an index outside a vector, a shift of a 64-bit value by
  64 or more): the model stops there instead of inventing a result.
\<close>

datatype error =
    BadMarker
  | BadSync
  | BadReserved
  | Reserved
  | Unsupported
  | BufferTooSmall
  | BadPartitioning
  | UnexpectedEnd
  | Undefined

section \<open>The bit reader (\<^verbatim>\<open>stream::bit::input\<close>)\<close>

text \<open>
  Modelled from the spec: the header \<^verbatim>\<open>stream/bit.hh\<close> (class \<^verbatim>\<open>stream::bit::input\<close> and the
  helper \<^verbatim>\<open>countl_zero\<close>) belongs to another library and is not part of the sources.  The
  reader wraps a byte source, keeps the bits of the last fetched byte that were not handed
  out yet, reads fields most significant bit first and fails with \<open>UnexpectedEnd\<close> when the
  source is exhausted.
\<close>

type_synonym byte = "8 word"

record bit_input =
  in_source :: "byte list"
  in_bits :: "bool list"

definition bit_input_init :: "byte list \<Rightarrow> bit_input" where
  "bit_input_init bytes = \<lparr>in_source = bytes, in_bits = []\<rparr>"

definition byte_bits :: "byte \<Rightarrow> bool list" where
  "byte_bits b = map (bit b) [7, 6, 5, 4, 3, 2, 1, 0]"

text \<open>All bits that are still to be read: the buffered ones, then those of the source.\<close>

definition pending :: "bit_input \<Rightarrow> bool list" where
  "pending r = in_bits r @ concat (map byte_bits (in_source r))"

text \<open>
  Modelled from the spec: one bit of \<^verbatim>\<open>stream::bit::input\<close> (section 4.A).  The next bit
  comes from the buffered bits or, when these are used up, from a fresh byte of the source;
  without a further byte the read fails with \<open>UnexpectedEnd\<close>.
\<close>

definition get_bit :: "bit_input \<Rightarrow> (error + bool) \<times> bit_input" where
  "get_bit r =
     (case in_bits r of
        b # bs \<Rightarrow> (Inr b, r\<lparr>in_bits := bs\<rparr>)
      | [] \<Rightarrow>
         (case in_source r of
            [] \<Rightarrow> (Inl UnexpectedEnd, r)
          | x # xs \<Rightarrow> (Inr (bit x 7), r\<lparr>in_source := xs, in_bits := tl (byte_bits x)\<rparr>)))"

fun get_bits :: "nat \<Rightarrow> nat \<Rightarrow> bit_input \<Rightarrow> (error + nat) \<times> bit_input" where
  "get_bits 0 acc r = (Inr acc, r)"
| "get_bits (Suc n) acc r =
     (case get_bit r of
        (Inl e, r') \<Rightarrow> (Inl e, r')
      | (Inr b, r') \<Rightarrow> get_bits n (2 * acc + of_bool b) r')"

text \<open>
  Modelled from the spec: \<^verbatim>\<open>stream::bit::input::get_uint(n)\<close> reads \<open>n\<close> bits, most
  significant first, and returns them as an unsigned number.
\<close>

definition get_uint :: "nat \<Rightarrow> bit_input \<Rightarrow> (error + nat) \<times> bit_input" where
  "get_uint n r = get_bits n 0 r"

text \<open>
  Modelled from the spec: \<^verbatim>\<open>stream::bit::input::get_int(n)\<close> reads \<open>n\<close> bits and
  sign-extends them from bit \<open>n - 1\<close> to a 64-bit signed value; no bits give 0.
\<close>

definition get_int :: "nat \<Rightarrow> bit_input \<Rightarrow> (error + 64 word) \<times> bit_input" where
  "get_int n r =
     (case get_uint n r of
        (Inl e, r') \<Rightarrow> (Inl e, r')
      | (Inr u, r') \<Rightarrow>
          (Inr (if 0 < n \<and> 2 ^ (n - 1) \<le> u then word_of_int (int u - 2 ^ n) else word_of_nat u), r'))"

text \<open>
  Modelled from the spec: \<^verbatim>\<open>stream::bit::input::get_byte()\<close> is \<^verbatim>\<open>get_uint(8)\<close> for a
  reader on a byte boundary, which is where the decoder calls it.
\<close>

definition get_byte :: "bit_input \<Rightarrow> (error + nat) \<times> bit_input" where
  "get_byte r = get_uint 8 r"

text \<open>
  Modelled from the spec: \<^verbatim>\<open>stream::bit::input::align()\<close> drops the buffered bits, and
  \<^verbatim>\<open>eos()\<close> holds when the source has no more bytes and no bit is buffered.
\<close>

definition align :: "bit_input \<Rightarrow> bit_input" where
  "align r = r\<lparr>in_bits := []\<rparr>"

definition eos :: "bit_input \<Rightarrow> bool" where
  "eos r \<longleftrightarrow> in_source r = [] \<and> in_bits r = []"

text \<open>
  Modelled from the spec: \<^verbatim>\<open>stream::bit::countl_zero<uint8_t>\<close> counts the leading zero
  bits of a byte.
\<close>

definition countl_zero :: "byte \<Rightarrow> nat" where
  "countl_zero b = length (takeWhile (\<lambda>x. \<not> x) (byte_bits b))"

section \<open>The FLAC decoder (\<^verbatim>\<open>flac.hh\<close>)\<close>

subsection \<open>Data\<close>

type_synonym buffer_sample_type = "64 word"

type_synonym audio_data = "buffer_sample_type list list"

text \<open>
  \<^verbatim>\<open>flac::streaminfo_type\<close>.  The field names carry the prefix \<open>si_\<close>, which keeps them
  apart from the local variables of the same names.
\<close>

record streaminfo_type =
  si_min_block_size :: "16 word"
  si_max_block_size :: "16 word"
  si_min_frame_size :: "32 word"
  si_max_frame_size :: "32 word"
  si_sample_rate :: "32 word"
  si_channel_count :: "8 word"
  si_sample_bit_size :: "8 word"
  si_sample_count :: "64 word"

datatype decoder_state = init | has_marker | has_metadata | complete

definition max_channel_count :: nat where
  "max_channel_count = 2"

text \<open>
  The members of \<^verbatim>\<open>decoder<INPUT_STREAM, BUFFER_SIZE>\<close>.  The template parameter
  \<^verbatim>\<open>BUFFER_SIZE\<close> is kept as the field \<open>d_BUFFER_SIZE\<close>, which no operation changes.
\<close>

record decoder =
  d_BUFFER_SIZE :: nat
  d_istream :: bit_input
  d_state :: decoder_state
  d_streaminfo :: streaminfo_type
  d_sample_count :: "64 word"
  d_block_size :: "16 word"
  d_block_sample_rate :: "32 word"
  d_channel_idx :: "8 word"
  d_frame_count :: "64 word"
  d_coefficients :: "16 word list"
  d_buffer :: audio_data

definition decoder_init :: "nat \<Rightarrow> byte list \<Rightarrow> decoder" where
  "decoder_init BUFFER_SIZE upstream =
     \<lparr>d_BUFFER_SIZE = BUFFER_SIZE,
      d_istream = bit_input_init upstream,
      d_state = init,
      d_streaminfo = \<lparr>si_min_block_size = 0, si_max_block_size = 0,
        si_min_frame_size = 0, si_max_frame_size = 0, si_sample_rate = 0,
        si_channel_count = 0, si_sample_bit_size = 0, si_sample_count = 0\<rparr>,
      d_sample_count = 0,
      d_block_size = 0,
      d_block_sample_rate = 0,
      d_channel_idx = 0,
      d_frame_count = 0,
      d_coefficients = replicate 32 0,
      d_buffer = replicate max_channel_count (replicate BUFFER_SIZE 0)\<rparr>"

definition fixed_prediction_coefficients :: "16 word list list" where
  "fixed_prediction_coefficients =
     [[0, 0, 0, 0],
      [1, 0, 0, 0],
      [2, - 1, 0, 0],
      [3, - 3, 1, 0],
      [4, - 6, 4, - 1]]"

subsection \<open>Statements: a state with exceptions\<close>

text \<open>
  A member function runs on the decoder object and either returns or throws; in both cases
  the object keeps the changes made so far.
\<close>

type_synonym 'a dec = "decoder \<Rightarrow> (error + 'a) \<times> decoder"

definition return :: "'a \<Rightarrow> 'a dec" where
  "return x d = (Inr x, d)"

definition throw :: "error \<Rightarrow> 'a dec" where
  "throw e d = (Inl e, d)"

definition bind :: "'a dec \<Rightarrow> ('a \<Rightarrow> 'b dec) \<Rightarrow> 'b dec" where
  "bind m f d = (case m d of (Inl e, d') \<Rightarrow> (Inl e, d') | (Inr x, d') \<Rightarrow> f x d')"

definition on_istream :: "(bit_input \<Rightarrow> (error + 'a) \<times> bit_input) \<Rightarrow> 'a dec" where
  "on_istream f d = (case f (d_istream d) of (x, r') \<Rightarrow> (x, d\<lparr>d_istream := r'\<rparr>))"

definition modify :: "(decoder \<Rightarrow> decoder) \<Rightarrow> unit dec" where
  "modify f d = (Inr (), f d)"

text \<open>
  A counted \<^verbatim>\<open>for\<close> loop: the body runs for each index in turn, a throw leaves the loop.
  The counters of the source are \<^verbatim>\<open>uint16_t\<close>, \<^verbatim>\<open>uint8_t\<close> or \<^verbatim>\<open>int\<close>.  They run up to
  the length of a channel buffer, which \<^verbatim>\<open>decode_audio\<close> has resized to the \<^verbatim>\<open>uint16_t\<close>
  block size before any subframe is decoded, or up to smaller bounds, so they do not wrap
  around and are natural numbers here.
\<close>

fun for_each :: "nat list \<Rightarrow> (nat \<Rightarrow> unit dec) \<Rightarrow> unit dec" where
  "for_each [] body d = (Inr (), d)"
| "for_each (i # is) body d =
     (case body i d of
        (Inl e, d') \<Rightarrow> (Inl e, d')
      | (Inr u, d') \<Rightarrow> for_each is body d')"

text \<open>
  \<^verbatim>\<open>_buffer[c][i]\<close> and \<^verbatim>\<open>_buffer[c].size()\<close>.  \<^verbatim>\<open>operator[]\<close> of a vector does not check its
  index; outside the vector the model yields \<open>Undefined\<close>.
\<close>

definition buf_size :: "nat \<Rightarrow> nat dec" where
  "buf_size c d =
     (if c < length (d_buffer d) then (Inr (length (d_buffer d ! c)), d) else (Inl Undefined, d))"

definition buf_get :: "nat \<Rightarrow> nat \<Rightarrow> buffer_sample_type dec" where
  "buf_get c i d =
     (if c < length (d_buffer d) \<and> i < length (d_buffer d ! c)
      then (Inr (d_buffer d ! c ! i), d) else (Inl Undefined, d))"

definition buf_set :: "nat \<Rightarrow> nat \<Rightarrow> buffer_sample_type \<Rightarrow> unit dec" where
  "buf_set c i v d =
     (if c < length (d_buffer d) \<and> i < length (d_buffer d ! c)
      then (Inr (), d\<lparr>d_buffer := (d_buffer d)[c := (d_buffer d ! c)[i := v]]\<rparr>)
      else (Inl Undefined, d))"

text \<open>\<^verbatim>\<open>vector::resize(n)\<close>: cut to \<open>n\<close> elements or extend with zeros.\<close>

definition resize :: "nat \<Rightarrow> 'a::zero list \<Rightarrow> 'a list" where
  "resize n xs = take n xs @ replicate (n - length xs) 0"

definition buf_resize :: "nat \<Rightarrow> nat \<Rightarrow> unit dec" where
  "buf_resize c n d =
     (if c < length (d_buffer d)
      then (Inr (), d\<lparr>d_buffer := (d_buffer d)[c := resize n (d_buffer d ! c)]\<rparr>)
      else (Inl Undefined, d))"

definition gets :: "(decoder \<Rightarrow> 'a) \<Rightarrow> 'a dec" where
  "gets f d = (Inr (f d), d)"

text \<open>The channel selected by the member \<^verbatim>\<open>_channel_idx\<close>.\<close>

definition channel :: "nat dec" where
  "channel = gets (\<lambda>d. unat (d_channel_idx d))"

subsection \<open>Frame header fields\<close>

definition get_block_size :: "nat \<Rightarrow> (16 word) dec" where
  "get_block_size flags_4bit =
     (if flags_4bit = 1 then return 192
      else if 1 < flags_4bit \<and> flags_4bit < 6 then return (word_of_nat (144 * 2 ^ flags_4bit))
      else if flags_4bit = 6 then
        bind (on_istream (get_uint 8)) (\<lambda>v. return (word_of_nat (v + 1)))
      else if flags_4bit = 7 then
        bind (on_istream (get_uint 16)) (\<lambda>v. return (word_of_nat (v + 1)))
      else if 7 < flags_4bit \<and> flags_4bit < 16 then
        return (word_of_nat (256 * 2 ^ (flags_4bit - 8)))
      else throw Reserved)"

definition get_sample_rate :: "nat \<Rightarrow> (32 word) dec" where
  "get_sample_rate flags_4bit =
     (if flags_4bit = 0 then gets (\<lambda>d. si_sample_rate (d_streaminfo d))
      else if flags_4bit = 1 then return 88200
      else if flags_4bit = 2 then return 176400
      else if flags_4bit = 3 then return 192000
      else if flags_4bit = 4 then return 8000
      else if flags_4bit = 5 then return 16000
      else if flags_4bit = 6 then return 22050
      else if flags_4bit = 7 then return 24000
      else if flags_4bit = 8 then return 32000
      else if flags_4bit = 9 then return 44100
      else if flags_4bit = 10 then return 48000
      else if flags_4bit = 11 then return 96000
      else if flags_4bit = 12 then
        bind (on_istream (get_uint 8)) (\<lambda>v. return (word_of_nat (v * 1000)))
      else if flags_4bit = 13 then
        bind (on_istream (get_uint 16)) (\<lambda>v. return (word_of_nat v))
      else if flags_4bit = 14 then
        bind (on_istream (get_uint 16)) (\<lambda>v. return (word_of_nat (v * 10)))
      else throw Reserved)"

definition get_sample_bit_size :: "nat \<Rightarrow> (8 word) dec" where
  "get_sample_bit_size flags_3bit =
     (if flags_3bit = 0 then gets (\<lambda>d. si_sample_bit_size (d_streaminfo d))
      else if flags_3bit = 1 then return 8
      else if flags_3bit = 2 then return 12
      else if flags_3bit = 4 then return 16
      else if flags_3bit = 5 then return 20
      else if flags_3bit = 6 then return 24
      else if flags_3bit = 7 then return 32
      else throw Reserved)"

subsection \<open>Rice codes and residuals\<close>

text \<open>
  The loop \<^verbatim>\<open>while (_istream.get_uint(1) == 0) ++uval;\<close> of \<^verbatim>\<open>_get_rice_int\<close>.  Each
  round consumes one bit of a finite input, so the loop ends: with the count, or with
  \<open>UnexpectedEnd\<close>.
\<close>

function rice_unary :: "64 word \<Rightarrow> bit_input \<Rightarrow> (error + 64 word) \<times> bit_input" where
  "rice_unary uval r =
     (case get_uint 1 r of
        (Inl e, r') \<Rightarrow> (Inl e, r')
      | (Inr b, r') \<Rightarrow> if b = 0 then rice_unary (uval + 1) r' else (Inr uval, r'))"
  by pat_completeness auto
termination
  by (relation "measure (\<lambda>(uval, r). length (pending r))")
    (auto simp: get_uint_def get_bit_def pending_def byte_bits_def
      split: list.splits prod.splits sum.splits)

declare rice_unary.simps [simp del]

text \<open>
  \<^verbatim>\<open>_get_rice_int(bit_count)\<close>.  The even branch goes through a cast to \<^verbatim>\<open>int\<close>, which
  keeps the low 32 bits.  A 64-bit value cannot be shifted by 64 or more.
\<close>

definition get_rice_int :: "nat \<Rightarrow> (64 word) dec" where
  "get_rice_int bit_count =
     bind (on_istream (rice_unary 0)) (\<lambda>uval.
     if 64 \<le> bit_count then throw Undefined else
     bind (on_istream (get_uint bit_count)) (\<lambda>low.
     let uval = push_bit bit_count uval OR word_of_nat low in
     return (if uval AND 1 \<noteq> 0 then - (drop_bit 1 uval) - 1
             else scast (ucast (drop_bit 1 uval) :: 32 word))))"

definition decode_residuals :: "nat \<Rightarrow> unit dec" where
  "decode_residuals order =
     bind (on_istream (get_uint 2)) (\<lambda>coding_method.
     if 1 < coding_method then throw Reserved else
     bind (on_istream (get_uint 4)) (\<lambda>partition_order.
     let partition_count = 2 ^ partition_order;
         parameter_bit_size = (if coding_method = 0 then 4 else 5);
         escape_code = (if coding_method = 0 then 15 else 31) in
     bind channel (\<lambda>c.
     bind (buf_size c) (\<lambda>size.
     if size mod partition_count \<noteq> 0 then throw BadPartitioning else
     let partition_size = (size div partition_count) mod 65536 in
     for_each [0..<partition_count] (\<lambda>i.
       let start = (i * partition_size + (if i = 0 then order else 0)) mod 65536;
           stop = ((i + 1) * partition_size) mod 65536 in
       bind (on_istream (get_uint parameter_bit_size)) (\<lambda>param.
       if param < escape_code then
         for_each [start..<stop] (\<lambda>j.
           bind (get_rice_int param) (\<lambda>v. buf_set c j v))
       else
         bind (on_istream (get_uint 5)) (\<lambda>bit_count.
         for_each [start..<stop] (\<lambda>j.
           bind (on_istream (get_int bit_count)) (\<lambda>v. buf_set c j v)))))))))"

subsection \<open>Linear prediction\<close>

text \<open>
  The inner loop of \<^verbatim>\<open>_restore_linear_prediction\<close>: it only reads, at the indices
  \<open>i - 1 - j\<close> with \<open>j < order \<le> i\<close>, which lie inside the buffer.
\<close>

definition prediction_sum ::
  "16 word list \<Rightarrow> nat \<Rightarrow> buffer_sample_type list \<Rightarrow> nat \<Rightarrow> 64 word" where
  "prediction_sum coefficients order buf i =
     foldl (\<lambda>sum j. sum + buf ! (i - 1 - j) * scast (coefficients ! j)) 0 [0..<order]"

text \<open>
  \<^verbatim>\<open>_restore_linear_prediction(coefficients, order, shift)\<close> with \<^verbatim>\<open>uint8_t shift\<close>.  The
  statement \<^verbatim>\<open>sum >> shift\<close> shifts a 64-bit signed value; for \<open>shift \<ge> 64\<close> C++ leaves the
  result undefined.
\<close>

definition restore_linear_prediction :: "16 word list \<Rightarrow> nat \<Rightarrow> nat \<Rightarrow> unit dec" where
  "restore_linear_prediction coefficients order shift =
     bind channel (\<lambda>c.
     bind (buf_size c) (\<lambda>size.
     for_each [order..<size] (\<lambda>i.
       bind (gets (\<lambda>d. prediction_sum coefficients order (d_buffer d ! c) i)) (\<lambda>sum.
       if 64 \<le> shift then throw Undefined else
       bind (buf_get c i) (\<lambda>x. buf_set c i (x + signed_drop_bit shift sum))))))"

subsection \<open>Subframes\<close>

definition decode_subframe_fixed :: "nat \<Rightarrow> 8 word \<Rightarrow> unit dec" where
  "decode_subframe_fixed order sample_bit_size =
     bind channel (\<lambda>c.
     bind (for_each [0..<order] (\<lambda>i.
       bind (on_istream (get_int (unat sample_bit_size))) (\<lambda>v. buf_set c i v))) (\<lambda>_.
     bind (decode_residuals order) (\<lambda>_.
     restore_linear_prediction (fixed_prediction_coefficients ! order) order 0)))"

text \<open>
  \<^verbatim>\<open>_decode_subframe_lpc\<close>: the shift is read as a signed 5-bit field into an \<^verbatim>\<open>int8_t\<close> and
  handed to the \<^verbatim>\<open>uint8_t shift\<close> parameter of \<^verbatim>\<open>_restore_linear_prediction\<close>, which keeps
  its bit pattern.
\<close>

definition decode_subframe_lpc :: "nat \<Rightarrow> 8 word \<Rightarrow> unit dec" where
  "decode_subframe_lpc order sample_bit_size =
     bind channel (\<lambda>c.
     bind (for_each [0..<order] (\<lambda>i.
       bind (on_istream (get_int (unat sample_bit_size))) (\<lambda>v. buf_set c i v))) (\<lambda>_.
     bind (on_istream (get_uint 4)) (\<lambda>p.
     let precision = p + 1 in
     bind (on_istream (get_int 5)) (\<lambda>s.
     let shift = (ucast s :: 8 word) in
     bind (for_each [0..<order] (\<lambda>i.
       bind (on_istream (get_int precision)) (\<lambda>v.
       modify (\<lambda>d. d\<lparr>d_coefficients := (d_coefficients d)[i := ucast v]\<rparr>)))) (\<lambda>_.
     bind (decode_residuals order) (\<lambda>_.
     bind (gets d_coefficients) (\<lambda>coefficients.
     restore_linear_prediction coefficients order (unat shift))))))))"

text \<open>
  The loop \<^verbatim>\<open>for (;;) { if (_istream.get_uint(1) == 1) break; ++wasted_bits; }\<close> on the
  \<^verbatim>\<open>uint8_t\<close> counter.
\<close>

function wasted_bits_loop :: "8 word \<Rightarrow> bit_input \<Rightarrow> (error + 8 word) \<times> bit_input" where
  "wasted_bits_loop wasted_bits r =
     (case get_uint 1 r of
        (Inl e, r') \<Rightarrow> (Inl e, r')
      | (Inr b, r') \<Rightarrow>
          if b = 1 then (Inr wasted_bits, r') else wasted_bits_loop (wasted_bits + 1) r')"
  by pat_completeness auto
termination
  by (relation "measure (\<lambda>(wasted_bits, r). length (pending r))")
    (auto simp: get_uint_def get_bit_def pending_def byte_bits_def
      split: list.splits prod.splits sum.splits)

declare wasted_bits_loop.simps [simp del]

text \<open>
  The closing loop of \<^verbatim>\<open>_decode_subframe\<close>,
  \<^verbatim>\<open>for (auto sample: _buffer[_channel_idx]) sample <<= wasted_bits;\<close>.
  The loop variable is declared \<^verbatim>\<open>auto\<close>, not \<^verbatim>\<open>auto &\<close>: each round copies one element
  into \<open>sample\<close>, shifts the copy and drops it.  Nothing is written to the buffer.
\<close>

definition shift_wasted_bits :: "nat \<Rightarrow> unit dec" where
  "shift_wasted_bits wasted_bits =
     bind channel (\<lambda>c.
     bind (buf_size c) (\<lambda>size.
     for_each [0..<size] (\<lambda>i.
       bind (buf_get c i) (\<lambda>sample.
       if 64 \<le> wasted_bits then throw Undefined else
       let sample = push_bit wasted_bits sample in
       return ()))))"

definition decode_subframe :: "8 word \<Rightarrow> unit dec" where
  "decode_subframe sample_bit_size =
     bind (on_istream (get_uint 1)) (\<lambda>_.
     bind (on_istream (get_uint 6)) (\<lambda>subframe_type.
     bind (on_istream (get_uint 1)) (\<lambda>flag.
     bind (if flag = 1 then on_istream (wasted_bits_loop 0) else return 0) (\<lambda>wasted_bits.
     let sample_bit_size = sample_bit_size - wasted_bits in
     bind
       (if subframe_type = 0 then
          bind channel (\<lambda>c.
          bind (buf_size c) (\<lambda>size.
          bind (on_istream (get_int (unat sample_bit_size))) (\<lambda>v.
          modify (\<lambda>d. d\<lparr>d_buffer := (d_buffer d)[c := replicate size v]\<rparr>))))
        else if subframe_type = 1 then
          bind channel (\<lambda>c.
          bind (buf_size c) (\<lambda>size.
          for_each [0..<size] (\<lambda>i.
            bind (on_istream (get_int (unat sample_bit_size))) (\<lambda>v. buf_set c i v))))
        else if subframe_type < 8 then throw Reserved
        else if subframe_type < 13 then decode_subframe_fixed (subframe_type - 8) sample_bit_size
        else if subframe_type < 32 then throw Reserved
        else decode_subframe_lpc (subframe_type - 31) sample_bit_size) (\<lambda>_.
     if 0 < wasted_bits then shift_wasted_bits (unat wasted_bits) else return ())))))"

subsection \<open>The public operations\<close>

definition decode_marker :: "unit dec" where
  "decode_marker =
     bind (on_istream (get_uint 32)) (\<lambda>marker.
     if marker \<noteq> 0x664c6143 then throw BadMarker
     else modify (\<lambda>d. d\<lparr>d_state := has_marker\<rparr>))"

definition set_streaminfo :: "(streaminfo_type \<Rightarrow> streaminfo_type) \<Rightarrow> unit dec" where
  "set_streaminfo f = modify (\<lambda>d. d\<lparr>d_streaminfo := f (d_streaminfo d)\<rparr>)"

definition decode_metadata :: "unit dec" where
  "decode_metadata =
     bind (on_istream (get_uint 1)) (\<lambda>last.
     bind (if last = 1 then modify (\<lambda>d. d\<lparr>d_state := has_metadata\<rparr>) else return ()) (\<lambda>_.
     bind (on_istream (get_uint 7)) (\<lambda>metadata_type_id.
     bind (on_istream (get_uint 24)) (\<lambda>metadata_byte_size.
     if metadata_type_id = 0 then
       bind (on_istream (get_uint 16)) (\<lambda>v.
       bind (set_streaminfo (\<lambda>s. s\<lparr>si_min_block_size := word_of_nat v\<rparr>)) (\<lambda>_.
       bind (on_istream (get_uint 16)) (\<lambda>v.
       bind (set_streaminfo (\<lambda>s. s\<lparr>si_max_block_size := word_of_nat v\<rparr>)) (\<lambda>_.
       bind (on_istream (get_uint 24)) (\<lambda>v.
       bind (set_streaminfo (\<lambda>s. s\<lparr>si_min_frame_size := word_of_nat v\<rparr>)) (\<lambda>_.
       bind (on_istream (get_uint 24)) (\<lambda>v.
       bind (set_streaminfo (\<lambda>s. s\<lparr>si_max_frame_size := word_of_nat v\<rparr>)) (\<lambda>_.
       bind (on_istream (get_uint 20)) (\<lambda>v.
       bind (set_streaminfo (\<lambda>s. s\<lparr>si_sample_rate := word_of_nat v\<rparr>)) (\<lambda>_.
       bind (on_istream (get_uint 3)) (\<lambda>v.
       bind (set_streaminfo (\<lambda>s. s\<lparr>si_channel_count := word_of_nat (v + 1)\<rparr>)) (\<lambda>_.
       bind (on_istream (get_uint 5)) (\<lambda>v.
       bind (set_streaminfo (\<lambda>s. s\<lparr>si_sample_bit_size := word_of_nat (v + 1)\<rparr>)) (\<lambda>_.
       bind (on_istream (get_uint 36)) (\<lambda>v.
       bind (set_streaminfo (\<lambda>s. s\<lparr>si_sample_count := word_of_nat v\<rparr>)) (\<lambda>_.
       bind (gets (\<lambda>d. unat (si_channel_count (d_streaminfo d)))) (\<lambda>count.
       if max_channel_count < count then throw Unsupported else
       bind (gets (\<lambda>d. d_BUFFER_SIZE d < unat (si_max_block_size (d_streaminfo d)))) (\<lambda>too_big.
       if too_big then throw BufferTooSmall else
       for_each [0..<16] (\<lambda>i. bind (on_istream get_byte) (\<lambda>_. return ()))))))))))))))))))))
     else
       for_each (rev [1..<metadata_byte_size + 1]) (\<lambda>i.
         bind (on_istream get_byte) (\<lambda>_. return ()))))))"

text \<open>
  The three loops that close the stereo branch of \<^verbatim>\<open>decode_audio\<close>, one per channel
  assignment 8, 9 and 10, each running over \<^verbatim>\<open>i < _block_size\<close>.
\<close>

definition decorrelate :: "nat \<Rightarrow> nat \<Rightarrow> unit dec" where
  "decorrelate channel_assignment_bitset block_size =
     (if channel_assignment_bitset = 8 then
        for_each [0..<block_size] (\<lambda>i.
          bind (buf_get 0 i) (\<lambda>x0.
          bind (buf_get 1 i) (\<lambda>x1.
          buf_set 1 i (x0 - x1))))
      else if channel_assignment_bitset = 9 then
        for_each [0..<block_size] (\<lambda>i.
          bind (buf_get 1 i) (\<lambda>x1.
          bind (buf_get 0 i) (\<lambda>x0.
          buf_set 0 i (x0 + x1))))
      else if channel_assignment_bitset = 10 then
        for_each [0..<block_size] (\<lambda>i.
          bind (buf_get 1 i) (\<lambda>side.
          bind (buf_get 0 i) (\<lambda>x0.
          let right = x0 - signed_drop_bit 1 side in
          bind (buf_set 1 i right) (\<lambda>_.
          buf_set 0 i (right + side)))))
      else return ())"

definition decode_audio :: "unit dec" where
  "decode_audio =
     bind (gets (\<lambda>d. eos (d_istream d))) (\<lambda>at_end.
     if at_end then modify (\<lambda>d. d\<lparr>d_state := complete\<rparr>) else
     bind (on_istream (get_uint 14)) (\<lambda>sync_code.
     if sync_code \<noteq> 0x3FFE then throw BadSync else
     bind (on_istream (get_uint 1)) (\<lambda>reserved1.
     if reserved1 \<noteq> 0 then throw BadReserved else
     bind (on_istream (get_uint 1)) (\<lambda>_.
     bind (on_istream (get_uint 4)) (\<lambda>block_size_bitset.
     bind (on_istream (get_uint 4)) (\<lambda>sample_rate_bitset.
     bind (on_istream (get_uint 4)) (\<lambda>channel_assignment_bitset.
     bind (on_istream (get_uint 3)) (\<lambda>sample_bit_size_bitset.
     bind (on_istream (get_uint 1)) (\<lambda>reserved2.
     if reserved2 \<noteq> 0 then throw BadReserved else
     bind (on_istream (get_uint 8)) (\<lambda>first.
     let extra_byte_len = countl_zero (NOT (word_of_nat first)) - 1 in
     bind (for_each [0..<extra_byte_len] (\<lambda>i.
       bind (on_istream (get_uint 8)) (\<lambda>_. return ()))) (\<lambda>_.
     bind (get_block_size block_size_bitset) (\<lambda>bs.
     bind (modify (\<lambda>d. d\<lparr>d_block_size := bs\<rparr>)) (\<lambda>_.
     bind (get_sample_rate sample_rate_bitset) (\<lambda>rate.
     bind (modify (\<lambda>d. d\<lparr>d_block_sample_rate := rate\<rparr>)) (\<lambda>_.
     bind (get_sample_bit_size sample_bit_size_bitset) (\<lambda>sample_bit_size.
     bind (on_istream (get_uint 8)) (\<lambda>_.
     bind
       (if channel_assignment_bitset < 8 then
          bind (gets (\<lambda>d. si_channel_count (d_streaminfo d))) (\<lambda>count.
          bind (for_each [0..<unat count] (\<lambda>c.
            bind (modify (\<lambda>d. d\<lparr>d_channel_idx := word_of_nat c\<rparr>)) (\<lambda>_.
            bind (buf_resize c (unat bs)) (\<lambda>_.
            decode_subframe sample_bit_size)))) (\<lambda>_.
          modify (\<lambda>d. d\<lparr>d_channel_idx := count\<rparr>)))
        else if channel_assignment_bitset < 11 then
          bind (modify (\<lambda>d. d\<lparr>d_channel_idx := 0\<rparr>)) (\<lambda>_.
          bind (buf_resize 0 (unat bs)) (\<lambda>_.
          bind (decode_subframe
            (sample_bit_size + (if channel_assignment_bitset = 9 then 1 else 0))) (\<lambda>_.
          bind (modify (\<lambda>d. d\<lparr>d_channel_idx := 1\<rparr>)) (\<lambda>_.
          bind (buf_resize 1 (unat bs)) (\<lambda>_.
          bind (decode_subframe
            (sample_bit_size + (if channel_assignment_bitset = 9 then 0 else 1))) (\<lambda>_.
          decorrelate channel_assignment_bitset (unat bs)))))))
        else throw Unsupported) (\<lambda>_.
     bind (modify (\<lambda>d. d\<lparr>d_sample_count := d_sample_count d + ucast (d_block_size d),
                             d_frame_count := d_frame_count d + 1\<rparr>)) (\<lambda>_.
     bind (modify (\<lambda>d. d\<lparr>d_istream := align (d_istream d)\<rparr>)) (\<lambda>_.
     bind (on_istream (get_uint 16)) (\<lambda>_. return ())))))))))))))))))))))"

text \<open>The three public member functions, for talking about sequences of calls.\<close>

datatype call = Decode_marker | Decode_metadata | Decode_audio

fun perform :: "call \<Rightarrow> unit dec" where
  "perform Decode_marker = decode_marker"
| "perform Decode_metadata = decode_metadata"
| "perform Decode_audio = decode_audio"

text \<open>
  A caller that catches the exception of a failed call still holds the decoder object, so
  a sequence of calls continues on the object as the previous call left it.
\<close>

fun perform_all :: "call list \<Rightarrow> decoder \<Rightarrow> decoder" where
  "perform_all [] d = d"
| "perform_all (c # cs) d = perform_all cs (snd (perform c d))"

text \<open>The position of a state in the order \<open>init\<close>, \<open>has_marker\<close>, \<open>has_metadata\<close>, \<open>complete\<close>.\<close>

fun state_rank :: "decoder_state \<Rightarrow> nat" where
  "state_rank init = 0"
| "state_rank has_marker = 1"
| "state_rank has_metadata = 2"
| "state_rank complete = 3"

section \<open>The WAVE encoder (\<^verbatim>\<open>wave.hh\<close>)\<close>

text \<open>\<^verbatim>\<open>wave::streaminfo_type\<close>, with the prefix \<open>wi_\<close> on the field names.\<close>

record wave_streaminfo_type =
  wi_sample_rate :: "32 word"
  wi_sample_bit_size :: "8 word"
  wi_channel_count :: "8 word"
  wi_sample_count :: "64 word"

text \<open>The output stream is the list of the bytes put so far.\<close>

record encoder =
  e_ostream :: "byte list"
  e_streaminfo :: wave_streaminfo_type

definition encoder_init :: "byte list \<Rightarrow> encoder" where
  "encoder_init ostream =
     \<lparr>e_ostream = ostream,
      e_streaminfo = \<lparr>wi_sample_rate = 0, wi_sample_bit_size = 0, wi_channel_count = 0,
        wi_sample_count = 0\<rparr>\<rparr>"

definition put :: "byte \<Rightarrow> encoder \<Rightarrow> encoder" where
  "put c e = e\<lparr>e_ostream := e_ostream e @ [c]\<rparr>"

definition put_string :: "string \<Rightarrow> encoder \<Rightarrow> encoder" where
  "put_string val e = fold (\<lambda>c. put (of_char c)) val e"

definition put_int32 :: "32 word \<Rightarrow> encoder \<Rightarrow> encoder" where
  "put_int32 val e =
     (let e = put (ucast (signed_drop_bit 0 val AND 0xff)) e;
          e = put (ucast (signed_drop_bit 8 val AND 0xff)) e;
          e = put (ucast (signed_drop_bit 16 val AND 0xff)) e;
          e = put (ucast (signed_drop_bit 24 val AND 0xff)) e
      in e)"

definition put_int16 :: "16 word \<Rightarrow> encoder \<Rightarrow> encoder" where
  "put_int16 val e =
     (let e = put (ucast (signed_drop_bit 0 val AND 0xff)) e;
          e = put (ucast (signed_drop_bit 8 val AND 0xff)) e
      in e)"

text \<open>
  \<^verbatim>\<open>encode_header\<close>.  \<open>data_size\<close> is computed in \<^verbatim>\<open>uint64_t\<close>, \<open>frame_size\<close> in \<^verbatim>\<open>int\<close>,
  \<open>byte_rate\<close> in \<^verbatim>\<open>uint32_t\<close>; the arguments of \<^verbatim>\<open>_put_int32\<close> and \<^verbatim>\<open>_put_int16\<close> are
  converted to \<^verbatim>\<open>int32_t\<close> and \<^verbatim>\<open>int16_t\<close>.
\<close>

definition encode_header :: "wave_streaminfo_type \<Rightarrow> encoder \<Rightarrow> encoder" where
  "encode_header info e =
     (let e = put_string ''RIFF'' e;
          data_size = (ucast (wi_channel_count info) * wi_sample_count info
                        * ucast (wi_sample_bit_size info) :: 64 word);
          e = put_int32 (ucast (4 + 8 + 16 + 8 + data_size)) e;
          e = put_string ''WAVE'' e;
          e = put_string ''fmt '' e;
          e = put_int32 16 e;
          e = put_int16 1 e;
          e = put_int16 (ucast (wi_channel_count info)) e;
          e = put_int32 (wi_sample_rate info) e;
          frame_size = (ucast (wi_sample_bit_size info) div 8
                         * ucast (wi_channel_count info) :: 32 word);
          byte_rate = frame_size * wi_sample_rate info;
          e = put_int32 byte_rate e;
          e = put_int16 (ucast frame_size) e;
          e = put_int16 (ucast (wi_sample_bit_size info)) e;
          e = put_string ''data'' e;
          e = put_int32 (ucast data_size) e
      in e\<lparr>e_streaminfo := info\<rparr>)"

section \<open>Notions used in the statements\<close>

subsection \<open>Statements that leave the lifecycle state alone\<close>

definition keeps_state :: "'a dec \<Rightarrow> bool" where
  "keeps_state m \<longleftrightarrow> (\<forall>d. d_state (snd (m d)) = d_state d)"

named_theorems keeps_state_intros

subsection \<open>Calls that respect the order of the lifecycle\<close>

text \<open>
  A call is in order unless it is \<^verbatim>\<open>decode_marker\<close> in the state \<open>has_metadata\<close>.
\<close>

fun in_order :: "call \<Rightarrow> decoder_state \<Rightarrow> bool" where
  "in_order Decode_marker s \<longleftrightarrow> s \<noteq> has_metadata"
| "in_order Decode_metadata s \<longleftrightarrow> True"
| "in_order Decode_audio s \<longleftrightarrow> True"

fun calls_in_order :: "call list \<Rightarrow> decoder \<Rightarrow> bool" where
  "calls_in_order [] d \<longleftrightarrow> True"
| "calls_in_order (c # cs) d \<longleftrightarrow>
     in_order c (d_state d) \<and> calls_in_order cs (snd (perform c d))"

text \<open>A decoder that is in the state \<open>complete\<close> only with its input at the end.\<close>

definition complete_at_end :: "decoder \<Rightarrow> bool" where
  "complete_at_end d \<longleftrightarrow> (d_state d = complete \<longrightarrow> eos (d_istream d))"

subsection \<open>Example streams\<close>

text \<open>
  The marker \<^verbatim>\<open>fLaC\<close>, one empty metadata block of type 1 with the last-block flag, and the
  marker again.
\<close>

definition stream_marker_twice :: "byte list" where
  "stream_marker_twice =
     [0x66, 0x4C, 0x61, 0x43, 0x81, 0x00, 0x00, 0x00, 0x66, 0x4C, 0x61, 0x43]"

text \<open>The marker and one empty last metadata block; no audio frame follows.\<close>

definition stream_no_audio :: "byte list" where
  "stream_no_audio = [0x66, 0x4C, 0x61, 0x43, 0x81, 0x00, 0x00, 0x00]"

text \<open>
  The marker and a last metadata block of type 0 (STREAMINFO) announcing 34 bytes, of which
  only two are there.
\<close>

definition stream_truncated :: "byte list" where
  "stream_truncated = [0x66, 0x4C, 0x61, 0x43, 0x80, 0x00, 0x00, 0x22, 0x10, 0x00]"

text \<open>The decoder on \<open>stream_truncated\<close> after \<^verbatim>\<open>decode_marker\<close>.\<close>

definition decoder_truncated :: decoder where
  "decoder_truncated = (decoder_init 4 stream_truncated)\<lparr>d_istream :=
      \<lparr>in_source = [0x80, 0x00, 0x00, 0x22, 0x10, 0x00], in_bits = []\<rparr>,
      d_state := has_marker\<rparr>"

subsection \<open>The stages of a frame\<close>

text \<open>
  Three parts of \<^verbatim>\<open>decode_audio\<close> under names of their own: the frame header from the
  sync code to the CRC-8, which yields the block size, the channel assignment and the
  sample size; the two subframes of a stereo frame; the statements after the subframes.
\<close>

definition frame_header :: "(16 word \<times> nat \<times> 8 word) dec" where
  "frame_header =
     bind (on_istream (get_uint 14)) (\<lambda>sync_code.
     if sync_code \<noteq> 0x3FFE then throw BadSync else
     bind (on_istream (get_uint 1)) (\<lambda>reserved1.
     if reserved1 \<noteq> 0 then throw BadReserved else
     bind (on_istream (get_uint 1)) (\<lambda>_.
     bind (on_istream (get_uint 4)) (\<lambda>block_size_bitset.
     bind (on_istream (get_uint 4)) (\<lambda>sample_rate_bitset.
     bind (on_istream (get_uint 4)) (\<lambda>channel_assignment_bitset.
     bind (on_istream (get_uint 3)) (\<lambda>sample_bit_size_bitset.
     bind (on_istream (get_uint 1)) (\<lambda>reserved2.
     if reserved2 \<noteq> 0 then throw BadReserved else
     bind (on_istream (get_uint 8)) (\<lambda>first.
     let extra_byte_len = countl_zero (NOT (word_of_nat first)) - 1 in
     bind (for_each [0..<extra_byte_len] (\<lambda>i.
       bind (on_istream (get_uint 8)) (\<lambda>_. return ()))) (\<lambda>_.
     bind (get_block_size block_size_bitset) (\<lambda>bs.
     bind (modify (\<lambda>d. d\<lparr>d_block_size := bs\<rparr>)) (\<lambda>_.
     bind (get_sample_rate sample_rate_bitset) (\<lambda>rate.
     bind (modify (\<lambda>d. d\<lparr>d_block_sample_rate := rate\<rparr>)) (\<lambda>_.
     bind (get_sample_bit_size sample_bit_size_bitset) (\<lambda>sample_bit_size.
     bind (on_istream (get_uint 8)) (\<lambda>_.
     return (bs, channel_assignment_bitset, sample_bit_size)))))))))))))))))"

definition stereo_subframes :: "nat \<Rightarrow> 16 word \<Rightarrow> 8 word \<Rightarrow> unit dec" where
  "stereo_subframes channel_assignment_bitset bs sample_bit_size =
     bind (modify (\<lambda>d. d\<lparr>d_channel_idx := 0\<rparr>)) (\<lambda>_.
     bind (buf_resize 0 (unat bs)) (\<lambda>_.
     bind (decode_subframe
       (sample_bit_size + (if channel_assignment_bitset = 9 then 1 else 0))) (\<lambda>_.
     bind (modify (\<lambda>d. d\<lparr>d_channel_idx := 1\<rparr>)) (\<lambda>_.
     bind (buf_resize 1 (unat bs)) (\<lambda>_.
     decode_subframe
       (sample_bit_size + (if channel_assignment_bitset = 9 then 0 else 1)))))))"

definition frame_footer :: "unit dec" where
  "frame_footer =
     bind (modify (\<lambda>d. d\<lparr>d_sample_count := d_sample_count d + ucast (d_block_size d),
                             d_frame_count := d_frame_count d + 1\<rparr>)) (\<lambda>_.
     bind (modify (\<lambda>d. d\<lparr>d_istream := align (d_istream d)\<rparr>)) (\<lambda>_.
     bind (on_istream (get_uint 16)) (\<lambda>_. return ())))"

subsection \<open>Statements that leave the lengths of the channels alone\<close>

definition keeps_lengths :: "'a dec \<Rightarrow> bool" where
  "keeps_lengths m \<longleftrightarrow> (\<forall>d. map length (d_buffer (snd (m d))) = map length (d_buffer d))"

named_theorems keeps_lengths_intros

subsection \<open>Statements that never throw a given error\<close>

definition never_raises :: "error \<Rightarrow> 'a dec \<Rightarrow> bool" where
  "never_raises e m \<longleftrightarrow> (\<forall>d. fst (m d) \<noteq> Inl e)"

named_theorems never_raises_intros

subsection \<open>Example frames\<close>

text \<open>
  A last STREAMINFO block: block size 16, sample rate 44100, one channel, 16 bits per
  sample, 16 samples, followed by the 16 bytes of the signature.
\<close>

definition streaminfo_block :: "byte list" where
  "streaminfo_block =
     [0x80, 0x00, 0x00, 0x22,
      0x00, 0x10, 0x00, 0x10, 0x00, 0x00, 0x00, 0x00, 0x00, 0x00,
      0x0A, 0xC4, 0x40, 0xF0, 0x00, 0x00, 0x00, 0x10,
      0x00, 0x00, 0x00, 0x00, 0x00, 0x00, 0x00, 0x00,
      0x00, 0x00, 0x00, 0x00, 0x00, 0x00, 0x00, 0x00]"

definition mono_stream :: "byte list \<Rightarrow> byte list" where
  "mono_stream frames = [0x66, 0x4C, 0x61, 0x43] @ streaminfo_block @ frames"

definition mono_streaminfo :: streaminfo_type where
  "mono_streaminfo = \<lparr>si_min_block_size = 16, si_max_block_size = 16,
     si_min_frame_size = 0, si_max_frame_size = 0, si_sample_rate = 44100,
     si_channel_count = 1, si_sample_bit_size = 16, si_sample_count = 16\<rparr>"

text \<open>The decoder on \<open>mono_stream frames\<close> once marker and metadata are read.\<close>

definition decoder_ready :: "byte list \<Rightarrow> decoder" where
  "decoder_ready frames = (decoder_init 16 (mono_stream frames))
     \<lparr>d_istream := \<lparr>in_source = frames, in_bits = []\<rparr>,
      d_state := has_metadata, d_streaminfo := mono_streaminfo\<rparr>"

text \<open>
  One frame of 16 samples, one channel, 16 bits.  Its subframe is of type 0 (constant) with
  the wasted-bits flag set, followed by the unary code \<open>0 1\<close>, followed by the 15-bit
  sample 3.
\<close>

definition frame_wasted :: "byte list" where
  "frame_wasted =
     [0xFF, 0xF8, 0x69, 0x08, 0x00, 0x0F, 0x00,
      0x01, 0x40, 0x01, 0x80,
      0x00, 0x00]"

text \<open>
  One frame of 16 samples, one channel, 16 bits.  Its subframe is of type 32 (LPC of order
  1): warm-up sample 4, precision field 1, the 5-bit shift field, the 2-bit coefficient 1, and
  residuals that are all 0 (Rice parameter 0, one partition).  The two frames differ in the
  shift field: \<open>11111\<close> (that is \<open>-1\<close>) in the first, \<open>00000\<close> in the second.
\<close>

definition frame_lpc_shift_minus_1 :: "byte list" where
  "frame_lpc_shift_minus_1 =
     [0xFF, 0xF8, 0x69, 0x08, 0x00, 0x0F, 0x00,
      0x40, 0x00, 0x04, 0x1F, 0xA0, 0x07, 0xFF, 0xF0,
      0x00, 0x00]"

definition frame_lpc_shift_0 :: "byte list" where
  "frame_lpc_shift_0 =
     [0xFF, 0xF8, 0x69, 0x08, 0x00, 0x0F, 0x00,
      0x40, 0x00, 0x04, 0x10, 0x20, 0x07, 0xFF, 0xF0,
      0x00, 0x00]"

text \<open>
  A residual section with coding method 0 and partition order 1, read into a channel of 4
  and of 5 samples.
\<close>

definition decoder_partition_4 :: decoder where
  "decoder_partition_4 = decoder_init 4 [0x04, 0x21, 0x80]"

definition decoder_partition_5 :: decoder where
  "decoder_partition_5 = decoder_init 5 [0x04, 0x21, 0x80]"

text \<open>
  One frame of 2 samples with channel assignment 10 and 8 bits per sample: a verbatim
  subframe with the mid samples 100, 100 and a verbatim subframe with the 9-bit side
  samples 4, -4.
\<close>

definition frame_mid_side :: "byte list" where
  "frame_mid_side =
     [0xFF, 0xF8, 0x69, 0xA2, 0x00, 0x01, 0x00,
      0x02, 0x64, 0x64,
      0x02, 0x02, 0x7F, 0x00,
      0x00, 0x00]"

text \<open>
  The decoder on \<open>frame_mid_side\<close> after the frame header, and after the two subframes.
\<close>

definition decoder_mid_side_1 :: decoder where
  "decoder_mid_side_1 = (decoder_init 2 frame_mid_side)
     \<lparr>d_istream := \<lparr>in_source = [0x02, 0x64, 0x64, 0x02, 0x02, 0x7F, 0x00, 0x00, 0x00],
        in_bits = []\<rparr>,
      d_block_size := 2, d_block_sample_rate := 44100\<rparr>"

definition decoder_mid_side_2 :: decoder where
  "decoder_mid_side_2 = decoder_mid_side_1
     \<lparr>d_istream := \<lparr>in_source = [0x00, 0x00],
        in_bits = [False, False, False, False, False, False]\<rparr>,
      d_channel_idx := 1, d_buffer := [[100, 100], [4, - 4]]\<rparr>"

text \<open>
  One frame, one channel, 16 bits, with the block size code 7 followed by the 16-bit value
  \<open>0xFFFF\<close>, and a constant subframe with the sample 5.
\<close>

definition frame_block_size_wraps :: "byte list" where
  "frame_block_size_wraps =
     [0xFF, 0xF8, 0x79, 0x08, 0x00, 0xFF, 0xFF, 0x00,
      0x00, 0x00, 0x05,
      0x00, 0x00]"

subsection \<open>Reading the WAVE header\<close>

text \<open>The bytes that \<^verbatim>\<open>encode_header\<close> adds to the output stream.\<close>

definition header :: "wave_streaminfo_type \<Rightarrow> encoder \<Rightarrow> byte list" where
  "header info e = drop (length (e_ostream e)) (e_ostream (encode_header info e))"

text \<open>
  The RIFF chunk size is at offset 4 of the header and the size of the data chunk at offset
  40, each 4 bytes long and read with the least significant byte first.
\<close>

definition riff_size_field :: "byte list \<Rightarrow> byte list" where
  "riff_size_field h = take 4 (drop 4 h)"

definition data_size_field :: "byte list \<Rightarrow> byte list" where
  "data_size_field h = take 4 (drop 40 h)"

definition le32 :: "byte list \<Rightarrow> nat" where
  "le32 bs = unat (bs ! 0) + 256 * unat (bs ! 1) + 65536 * unat (bs ! 2) + 16777216 * unat (bs ! 3)"

text \<open>The bytes that \<^verbatim>\<open>_put_int32\<close> and \<^verbatim>\<open>_put_int16\<close> put.\<close>

definition int32_bytes :: "32 word \<Rightarrow> byte list" where
  "int32_bytes val =
     [ucast (signed_drop_bit 0 val AND 0xff), ucast (signed_drop_bit 8 val AND 0xff),
      ucast (signed_drop_bit 16 val AND 0xff), ucast (signed_drop_bit 24 val AND 0xff)]"

definition int16_bytes :: "16 word \<Rightarrow> byte list" where
  "int16_bytes val =
     [ucast (signed_drop_bit 0 val AND 0xff), ucast (signed_drop_bit 8 val AND 0xff)]"

text \<open>Two channels of 16 bits and \<open>2 ^ 27\<close> samples, about 50 minutes at 44100 Hz.\<close>

definition info_long :: wave_streaminfo_type where
  "info_long = \<lparr>wi_sample_rate = 44100, wi_sample_bit_size = 16, wi_channel_count = 2,
     wi_sample_count = 134217728\<rparr>"

subsection \<open>Rice codes\<close>

text \<open>
  The repository has no encoder.  The Rice code of a value is written down here from
  section 4.B of the specification, read backwards: the value \<open>v\<close> is mapped to the
  unsigned \<open>u = 2 v\<close> when \<open>v \<ge> 0\<close> and \<open>u = - 2 v - 1\<close> otherwise; the code is the quotient
  \<open>u div 2 ^ k\<close> in unary (that many 0 bits and a closing 1 bit) followed by the remainder
  \<open>u mod 2 ^ k\<close> in \<open>k\<close> bits, most significant bit first.
\<close>

fun uint_bits :: "nat \<Rightarrow> nat \<Rightarrow> bool list" where
  "uint_bits 0 x = []"
| "uint_bits (Suc n) x = odd (x div 2 ^ n) # uint_bits n x"

definition zigzag :: "int \<Rightarrow> nat" where
  "zigzag v = (if 0 \<le> v then nat (2 * v) else nat (- 2 * v - 1))"

definition rice_encode :: "nat \<Rightarrow> int \<Rightarrow> bool list" where
  "rice_encode k v =
     replicate (zigzag v div 2 ^ k) False @ [True] @ uint_bits k (zigzag v mod 2 ^ k)"

section \<open>Basic facts about statements and the bit reader\<close>

lemma bind_Inr: "m d = (Inr x, d') \<Longrightarrow> bind m f d = f x d'"
  by (simp add: bind_def)

lemma bind_Inl: "m d = (Inl e, d') \<Longrightarrow> bind m f d = (Inl e, d')"
  by (simp add: bind_def)

lemma on_istream_eq:
  "f (d_istream d) = (x, r) \<Longrightarrow> on_istream f d = (x, d\<lparr>d_istream := r\<rparr>)"
  by (simp add: on_istream_def)

lemma get_bits_bound: "get_bits n acc r = (Inr v, r') \<Longrightarrow> v < (acc + 1) * 2 ^ n"
proof (induction n arbitrary: acc r)
  case 0
  then show ?case by simp
next
  case (Suc n)
  then obtain b r1 where rest: "get_bits n (2 * acc + of_bool b) r1 = (Inr v, r')"
    by (auto split: prod.splits sum.splits)
  from Suc.IH [OF rest] have "v < (2 * acc + of_bool b + 1) * 2 ^ n" .
  also have "\<dots> \<le> (2 * acc + 2) * 2 ^ n"
    by (cases b) simp_all
  finally show ?case
    by (simp add: algebra_simps)
qed

lemma get_uint_less: "get_uint n r = (Inr v, r') \<Longrightarrow> v < 2 ^ n"
  using get_bits_bound [of n 0 r v r'] by (simp add: get_uint_def)

text \<open>Equations for running the decoder on a given input inside the logic.\<close>

lemma get_bits_numeral:
  "get_bits (numeral k) acc r =
     (case get_bit r of
        (Inl e, r') \<Rightarrow> (Inl e, r')
      | (Inr b, r') \<Rightarrow> get_bits (pred_numeral k) (2 * acc + of_bool b) r')"
  by (simp add: numeral_eq_Suc)

lemma get_bits_1:
  "get_bits 1 acc r =
     (case get_bit r of
        (Inl e, r') \<Rightarrow> (Inl e, r')
      | (Inr b, r') \<Rightarrow> (Inr (2 * acc + of_bool b), r'))"
  by (simp split: prod.splits sum.splits)

lemma replicate_num: "replicate (numeral k) x = x # replicate (pred_numeral k) x"
  by (simp add: numeral_eq_Suc)

lemma list_update_num: "(x # xs)[numeral k := y] = x # xs[pred_numeral k := y]"
  by (simp add: numeral_eq_Suc)

lemmas reader_simps =
  get_bits_numeral get_bits_1 get_uint_def get_int_def get_byte_def get_bit_def byte_bits_def
  align_def eos_def countl_zero_def bit_input_init_def

lemmas eval_simps =
  reader_simps upt_conv_Cons replicate_num list_update_num
  rice_unary.simps wasted_bits_loop.simps
  decoder_init_def max_channel_count_def
  return_def throw_def bind_def on_istream_def modify_def gets_def channel_def
  buf_size_def buf_get_def buf_set_def resize_def buf_resize_def
  get_block_size_def get_sample_rate_def get_sample_bit_size_def
  get_rice_int_def decode_residuals_def prediction_sum_def restore_linear_prediction_def
  decode_subframe_fixed_def decode_subframe_lpc_def shift_wasted_bits_def decode_subframe_def
  decode_marker_def set_streaminfo_def decode_metadata_def decorrelate_def decode_audio_def
  fixed_prediction_coefficients_def Let_def

section \<open>Block sizes\<close>

lemma get_block_size_2_5:
  assumes "1 < c" and "c < 6"
  shows "get_block_size c d = (Inr (word_of_nat (576 * 2 ^ (c - 2))), d)"
proof -
  from assms have "c = 2 \<or> c = 3 \<or> c = 4 \<or> c = 5"
    by arith
  then have "(144::nat) * 2 ^ c = 576 * 2 ^ (c - 2)"
    by auto
  with assms show ?thesis
    by (simp add: get_block_size_def return_def)
qed

lemma unat_block_size_2_5:
  assumes "1 < c" and "c < 6"
  shows "unat (word_of_nat (576 * 2 ^ (c - 2)) :: 16 word) = 576 * 2 ^ (c - 2)"
proof -
  from assms have "c = 2 \<or> c = 3 \<or> c = 4 \<or> c = 5"
    by arith
  then show ?thesis
    by auto
qed

lemma get_block_size_8_15:
  "7 < c \<Longrightarrow> c < 16 \<Longrightarrow> get_block_size c d = (Inr (word_of_nat (256 * 2 ^ (c - 8))), d)"
  by (simp add: get_block_size_def return_def)

lemma unat_block_size_8_15:
  assumes "7 < c" and "c < 16"
  shows "unat (word_of_nat (256 * 2 ^ (c - 8)) :: 16 word) = 256 * 2 ^ (c - 8)"
proof -
  from assms have "c = 8 \<or> c = 9 \<or> c = 10 \<or> c = 11 \<or> c = 12 \<or> c = 13 \<or> c = 14 \<or> c = 15"
    by arith
  then show ?thesis
    by auto
qed

lemma get_block_size_6:
  "get_uint 8 (d_istream d) = (Inr v, r) \<Longrightarrow>
   get_block_size 6 d = (Inr (word_of_nat (v + 1)), d\<lparr>d_istream := r\<rparr>)"
  by (simp add: get_block_size_def bind_def on_istream_def return_def)

lemma unat_block_size_6:
  assumes "get_uint 8 r0 = (Inr v, r)"
  shows "unat (word_of_nat (v + 1) :: 16 word) = v + 1"
proof -
  from get_uint_less [OF assms] have "v + 1 < 2 ^ 16"
    by simp
  then show ?thesis
    using unat_of_nat [where 'a = 16, of "v + 1"] by simp
qed

lemma get_block_size_7:
  "get_uint 16 (d_istream d) = (Inr v, r) \<Longrightarrow>
   get_block_size 7 d = (Inr (word_of_nat (v + 1)), d\<lparr>d_istream := r\<rparr>)"
  by (simp add: get_block_size_def bind_def on_istream_def return_def)

lemma unat_block_size_7: "unat (word_of_nat (v + 1) :: 16 word) = (v + 1) mod 65536"
  using unat_of_nat [where 'a = 16, of "v + 1"] by simp

text \<open>
  What \<^verbatim>\<open>_get_block_size\<close> returns for each code.  The result is a \<^verbatim>\<open>uint16_t\<close>, so for
  code 7 it is the next 16-bit value plus 1 with only the low 16 bits kept.
\<close>

lemma get_block_size_table:
  "get_block_size 0 d = (Inl Reserved, d) \<and>
   get_block_size 1 d = (Inr 192, d) \<and>
   (\<forall>c. 2 \<le> c \<and> c \<le> 5 \<longrightarrow>
      get_block_size c d = (Inr (word_of_nat (576 * 2 ^ (c - 2))), d) \<and>
      unat (word_of_nat (576 * 2 ^ (c - 2)) :: 16 word) = 576 * 2 ^ (c - 2)) \<and>
   (\<forall>v r. get_uint 8 (d_istream d) = (Inr v, r) \<longrightarrow>
      get_block_size 6 d = (Inr (word_of_nat (v + 1)), d\<lparr>d_istream := r\<rparr>) \<and>
      unat (word_of_nat (v + 1) :: 16 word) = v + 1) \<and>
   (\<forall>v r. get_uint 16 (d_istream d) = (Inr v, r) \<longrightarrow>
      get_block_size 7 d = (Inr (word_of_nat (v + 1)), d\<lparr>d_istream := r\<rparr>) \<and>
      unat (word_of_nat (v + 1) :: 16 word) = (v + 1) mod 65536) \<and>
   (\<forall>c. 8 \<le> c \<and> c \<le> 15 \<longrightarrow>
      get_block_size c d = (Inr (word_of_nat (256 * 2 ^ (c - 8))), d) \<and>
      unat (word_of_nat (256 * 2 ^ (c - 8)) :: 16 word) = 256 * 2 ^ (c - 8))"
proof (intro conjI allI impI)
  show "get_block_size 0 d = (Inl Reserved, d)"
    by (simp add: get_block_size_def throw_def)
  show "get_block_size 1 d = (Inr 192, d)"
    by (simp add: get_block_size_def return_def)
next
  fix c :: nat
  assume "2 \<le> c \<and> c \<le> 5"
  then have c: "1 < c" "c < 6"
    by simp_all
  show "get_block_size c d = (Inr (word_of_nat (576 * 2 ^ (c - 2))), d)"
    using c by (rule get_block_size_2_5)
  show "unat (word_of_nat (576 * 2 ^ (c - 2)) :: 16 word) = 576 * 2 ^ (c - 2)"
    using c by (rule unat_block_size_2_5)
next
  fix v r
  assume g: "get_uint 8 (d_istream d) = (Inr v, r)"
  show "get_block_size 6 d = (Inr (word_of_nat (v + 1)), d\<lparr>d_istream := r\<rparr>)"
    using g by (rule get_block_size_6)
  show "unat (word_of_nat (v + 1) :: 16 word) = v + 1"
    using g by (rule unat_block_size_6)
next
  fix v r
  assume g: "get_uint 16 (d_istream d) = (Inr v, r)"
  show "get_block_size 7 d = (Inr (word_of_nat (v + 1)), d\<lparr>d_istream := r\<rparr>)"
    using g by (rule get_block_size_7)
  show "unat (word_of_nat (v + 1) :: 16 word) = (v + 1) mod 65536"
    by (rule unat_block_size_7)
next
  fix c :: nat
  assume "8 \<le> c \<and> c \<le> 15"
  then have c: "7 < c" "c < 16"
    by simp_all
  show "get_block_size c d = (Inr (word_of_nat (256 * 2 ^ (c - 8))), d)"
    using c by (rule get_block_size_8_15)
  show "unat (word_of_nat (256 * 2 ^ (c - 8)) :: 16 word) = 256 * 2 ^ (c - 8)"
    using c by (rule unat_block_size_8_15)
qed

lemma get_uint_8_FF:
  "get_uint 8 (d_istream (decoder_init 4 [0xFF, 0xFF])) =
     (Inr 255, \<lparr>in_source = [0xFF], in_bits = []\<rparr>)"
  by (simp add: reader_simps decoder_init_def)

lemma get_uint_16_FFFF:
  "get_uint 16 (d_istream (decoder_init 4 [0xFF, 0xFF])) =
     (Inr 65535, \<lparr>in_source = [], in_bits = []\<rparr>)"
  by (simp add: reader_simps decoder_init_def)

lemma get_block_size_table_examples:
  "fst (get_block_size 3 (decoder_init 4 [0xFF, 0xFF])) = Inr 1152 \<and>
   fst (get_block_size 6 (decoder_init 4 [0xFF, 0xFF])) = Inr 256 \<and>
   fst (get_block_size 7 (decoder_init 4 [0xFF, 0xFF])) = Inr 0 \<and>
   fst (get_block_size 9 (decoder_init 4 [0xFF, 0xFF])) = Inr 512"
proof -
  note t = get_block_size_table [of "decoder_init 4 [0xFF, 0xFF]"]
  note t3 = t [THEN conjunct2, THEN conjunct2, THEN conjunct1, rule_format, of 3]
  note t6 = t [THEN conjunct2, THEN conjunct2, THEN conjunct2, THEN conjunct1, rule_format,
    OF get_uint_8_FF]
  note t7 = t [THEN conjunct2, THEN conjunct2, THEN conjunct2, THEN conjunct2, THEN conjunct1,
    rule_format, OF get_uint_16_FFFF]
  note t9 = t [THEN conjunct2, THEN conjunct2, THEN conjunct2, THEN conjunct2, THEN conjunct2,
    rule_format, of 9]
  have "fst (get_block_size 3 (decoder_init 4 [0xFF, 0xFF])) = Inr 1152"
    using t3 by simp
  moreover have "fst (get_block_size 6 (decoder_init 4 [0xFF, 0xFF])) = Inr 256"
    using t6 by simp
  moreover have "fst (get_block_size 7 (decoder_init 4 [0xFF, 0xFF])) = Inr 0"
    using t7 by simp
  moreover have "fst (get_block_size 9 (decoder_init 4 [0xFF, 0xFF])) = Inr 512"
    using t9 by simp
  ultimately show ?thesis
    by simp
qed

section \<open>End of stream\<close>

text \<open>
  C8.  When \<^verbatim>\<open>decode_audio\<close> is called with the input at end of stream it returns normally
  and changes nothing but the state, which becomes \<open>complete\<close>: the input and the sample
  buffers are as before.  If the state was \<open>complete\<close> already, the call changes nothing at
  all.
\<close>

theorem decode_audio_eos:
  "eos (d_istream d) \<Longrightarrow>
     decode_audio d = (Inr (), d\<lparr>d_state := complete\<rparr>) \<and>
     (d_state d = complete \<longrightarrow> decode_audio d = (Inr (), d))"
  by (simp add: decode_audio_def bind_def gets_def modify_def)

theorem decode_audio_eos_witness:
  "eos (d_istream (decoder_init 4 [])) \<and>
   decode_audio (decoder_init 4 []) = (Inr (), (decoder_init 4 [])\<lparr>d_state := complete\<rparr>) \<and>
   decode_audio ((decoder_init 4 [])\<lparr>d_state := complete\<rparr>) =
     (Inr (), (decoder_init 4 [])\<lparr>d_state := complete\<rparr>)"
proof -
  have e: "eos (d_istream (decoder_init 4 []))"
    by (simp add: eos_def decoder_init_def bit_input_init_def)
  have e': "eos (d_istream ((decoder_init 4 [])\<lparr>d_state := complete\<rparr>))"
    by (simp add: eos_def decoder_init_def bit_input_init_def)
  show ?thesis
    using e decode_audio_eos [OF e] decode_audio_eos [OF e'] by simp
qed

section \<open>The lifecycle state\<close>

lemma keeps_stateD: "keeps_state m \<Longrightarrow> d_state (snd (m d)) = d_state d"
  by (simp add: keeps_state_def)

lemma keeps_state_return [keeps_state_intros]: "keeps_state (return x)"
  by (simp add: keeps_state_def return_def)

lemma keeps_state_throw [keeps_state_intros]: "keeps_state (throw e)"
  by (simp add: keeps_state_def throw_def)

lemma keeps_state_gets [keeps_state_intros]: "keeps_state (gets f)"
  by (simp add: keeps_state_def gets_def)

lemma keeps_state_channel [keeps_state_intros]: "keeps_state channel"
  by (simp add: channel_def keeps_state_gets)

lemma keeps_state_on_istream [keeps_state_intros]: "keeps_state (on_istream f)"
  by (simp add: keeps_state_def on_istream_def split: prod.splits)

lemma keeps_state_bind [keeps_state_intros]:
  assumes "keeps_state m" and "\<And>x. keeps_state (f x)"
  shows "keeps_state (bind m f)"
  unfolding keeps_state_def
proof
  fix d
  show "d_state (snd (bind m f d)) = d_state d"
  proof (cases "m d")
    case (Pair res d')
    with assms(1) have s: "d_state d' = d_state d"
      by (metis keeps_stateD snd_conv)
    show ?thesis
    proof (cases res)
      case (Inl e)
      with Pair s show ?thesis by (simp add: bind_def)
    next
      case (Inr x)
      with Pair have "bind m f d = f x d'" by (simp add: bind_def)
      with assms(2) [of x] s show ?thesis by (simp add: keeps_state_def)
    qed
  qed
qed

lemma keeps_state_if [keeps_state_intros]:
  "(c \<Longrightarrow> keeps_state a) \<Longrightarrow> (\<not> c \<Longrightarrow> keeps_state b) \<Longrightarrow> keeps_state (if c then a else b)"
  by simp

lemma keeps_state_for_each [keeps_state_intros]:
  assumes "\<And>i. keeps_state (body i)"
  shows "keeps_state (for_each is body)"
  unfolding keeps_state_def
proof
  fix d
  show "d_state (snd (for_each is body d)) = d_state d"
  proof (induction "is" arbitrary: d)
    case Nil
    then show ?case by simp
  next
    case (Cons i "is")
    obtain res d' where b: "body i d = (res, d')" by (cases "body i d")
    with assms [of i] have s: "d_state d' = d_state d"
      by (metis keeps_stateD snd_conv)
    show ?case
    proof (cases res)
      case (Inl e)
      with b s show ?thesis by simp
    next
      case (Inr u)
      with b s Cons.IH [of d'] show ?thesis by simp
    qed
  qed
qed

lemma keeps_state_buf_size [keeps_state_intros]: "keeps_state (buf_size c)"
  by (simp add: keeps_state_def buf_size_def)

lemma keeps_state_buf_get [keeps_state_intros]: "keeps_state (buf_get c i)"
  by (simp add: keeps_state_def buf_get_def)

lemma keeps_state_buf_set [keeps_state_intros]: "keeps_state (buf_set c i v)"
  by (simp add: keeps_state_def buf_set_def)

lemma keeps_state_buf_resize [keeps_state_intros]: "keeps_state (buf_resize c n)"
  by (simp add: keeps_state_def buf_resize_def)

lemma keeps_state_modify:
  "(\<And>d. d_state (f d) = d_state d) \<Longrightarrow> keeps_state (modify f)"
  by (simp add: keeps_state_def modify_def)

lemma keeps_state_set_streaminfo [keeps_state_intros]: "keeps_state (set_streaminfo f)"
  by (simp add: set_streaminfo_def keeps_state_modify)

lemma keeps_state_get_block_size [keeps_state_intros]: "keeps_state (get_block_size c)"
  unfolding get_block_size_def by (intro keeps_state_intros)

lemma keeps_state_get_sample_rate [keeps_state_intros]: "keeps_state (get_sample_rate c)"
  unfolding get_sample_rate_def by (intro keeps_state_intros)

lemma keeps_state_get_sample_bit_size [keeps_state_intros]:
  "keeps_state (get_sample_bit_size c)"
  unfolding get_sample_bit_size_def by (intro keeps_state_intros)

lemma keeps_state_get_rice_int [keeps_state_intros]: "keeps_state (get_rice_int k)"
  unfolding get_rice_int_def Let_def by (intro keeps_state_intros)

lemma keeps_state_decode_residuals [keeps_state_intros]: "keeps_state (decode_residuals order)"
  unfolding decode_residuals_def Let_def by (intro keeps_state_intros)

lemma keeps_state_restore [keeps_state_intros]:
  "keeps_state (restore_linear_prediction coefficients order shift)"
  unfolding restore_linear_prediction_def by (intro keeps_state_intros)

lemma keeps_state_fixed [keeps_state_intros]: "keeps_state (decode_subframe_fixed order bits)"
  unfolding decode_subframe_fixed_def by (intro keeps_state_intros)

lemma keeps_state_lpc [keeps_state_intros]: "keeps_state (decode_subframe_lpc order bits)"
  unfolding decode_subframe_lpc_def Let_def
  by (intro keeps_state_intros keeps_state_modify) simp

lemma keeps_state_shift_wasted [keeps_state_intros]: "keeps_state (shift_wasted_bits k)"
  unfolding shift_wasted_bits_def Let_def by (intro keeps_state_intros)

lemma keeps_state_decode_subframe [keeps_state_intros]: "keeps_state (decode_subframe bits)"
  unfolding decode_subframe_def Let_def
  by (intro keeps_state_intros keeps_state_modify) simp

lemma keeps_state_decorrelate [keeps_state_intros]: "keeps_state (decorrelate a n)"
  unfolding decorrelate_def Let_def by (intro keeps_state_intros)

lemma decode_marker_state:
  "d_state (snd (decode_marker d)) = d_state d \<or> d_state (snd (decode_marker d)) = has_marker"
  by (simp add: decode_marker_def bind_def on_istream_def throw_def modify_def
      split: prod.splits sum.splits)

lemma bind_bind_state:
  assumes "\<And>x y. keeps_state (g x y)"
  shows "d_state (snd (bind m (\<lambda>x. bind (f x) (g x)) d)) = d_state (snd (bind m f d))"
proof (cases "m d")
  case (Pair res d')
  show ?thesis
  proof (cases res)
    case (Inl e)
    with Pair show ?thesis by (simp add: bind_def)
  next
    case (Inr x)
    with Pair have 1: "bind m (\<lambda>x. bind (f x) (g x)) d = bind (f x) (g x) d'"
      and 2: "bind m f d = f x d'"
      by (simp_all add: bind_def)
    obtain res2 d2 where f: "f x d' = (res2, d2)"
      by (cases "f x d'")
    show ?thesis
    proof (cases res2)
      case (Inl e)
      with f 1 2 show ?thesis by (simp add: bind_def)
    next
      case (Inr y)
      with f have "bind (f x) (g x) d' = g x y d2" by (simp add: bind_def)
      with assms [of x y] 1 2 f show ?thesis by (simp add: keeps_state_def)
    qed
  qed
qed

lemma decode_metadata_state_flag:
  "d_state (snd (decode_metadata d)) =
     d_state (snd (bind (on_istream (get_uint 1))
       (\<lambda>last. if last = 1 then modify (\<lambda>d. d\<lparr>d_state := has_metadata\<rparr>) else return ()) d))"
  unfolding decode_metadata_def
  by (rule bind_bind_state) (intro keeps_state_intros)

lemma decode_metadata_state:
  "d_state (snd (decode_metadata d)) = d_state d \<or>
   d_state (snd (decode_metadata d)) = has_metadata"
  unfolding decode_metadata_state_flag
  by (simp add: bind_def on_istream_def modify_def return_def split: prod.splits sum.splits)

lemma gets_if_state:
  assumes "keeps_state b"
  shows "d_state (snd (bind (gets p) (\<lambda>c. if c then a else b) d)) =
    (if p d then d_state (snd (a d)) else d_state d)"
  using assms by (simp add: bind_def gets_def keeps_state_def)

lemma decode_audio_state:
  "d_state (snd (decode_audio d)) = (if eos (d_istream d) then complete else d_state d)"
proof -
  have "d_state (snd (decode_audio d)) =
    (if eos (d_istream d) then d_state (snd (modify (\<lambda>d. d\<lparr>d_state := complete\<rparr>) d))
     else d_state d)"
    unfolding decode_audio_def Let_def
    by (rule gets_if_state) (intro keeps_state_intros keeps_state_modify; simp)
  then show ?thesis
    by (simp add: modify_def)
qed

lemma get_bit_eos: "eos r \<Longrightarrow> get_bit r = (Inl UnexpectedEnd, r)"
  by (simp add: eos_def get_bit_def)

lemma get_uint_eos: "eos r \<Longrightarrow> 0 < n \<Longrightarrow> get_uint n r = (Inl UnexpectedEnd, r)"
  by (cases n) (simp_all add: get_uint_def get_bit_eos)

lemma decode_marker_eos: "eos (d_istream d) \<Longrightarrow> decode_marker d = (Inl UnexpectedEnd, d)"
  by (simp add: decode_marker_def bind_def on_istream_def get_uint_eos)

lemma decode_metadata_eos: "eos (d_istream d) \<Longrightarrow> decode_metadata d = (Inl UnexpectedEnd, d)"
  by (simp add: decode_metadata_def bind_def on_istream_def get_uint_eos)

lemma decode_audio_at_eos:
  "eos (d_istream d) \<Longrightarrow> decode_audio d = (Inr (), d\<lparr>d_state := complete\<rparr>)"
  by (simp add: decode_audio_def bind_def gets_def modify_def)

lemma perform_complete_at_end:
  assumes "complete_at_end d"
  shows "complete_at_end (snd (perform c d))"
proof (cases "d_state d = complete")
  case True
  with assms have e: "eos (d_istream d)"
    by (simp add: complete_at_end_def)
  with True show ?thesis
    by (cases c) (simp_all add: decode_marker_eos decode_metadata_eos decode_audio_at_eos
        complete_at_end_def)
next
  case False
  show ?thesis
  proof (cases c)
    case Decode_marker
    with False decode_marker_state [of d] show ?thesis
      by (auto simp: complete_at_end_def)
  next
    case Decode_metadata
    with False decode_metadata_state [of d] show ?thesis
      by (auto simp: complete_at_end_def)
  next
    case Decode_audio
    show ?thesis
    proof (cases "eos (d_istream d)")
      case True
      with Decode_audio show ?thesis
        by (simp add: decode_audio_at_eos complete_at_end_def)
    next
      case e: False
      with False Decode_audio show ?thesis
        by (simp add: complete_at_end_def decode_audio_state)
    qed
  qed
qed

lemma perform_all_complete_at_end:
  "complete_at_end d \<Longrightarrow> complete_at_end (perform_all cs d)"
  by (induction cs arbitrary: d) (simp_all add: perform_complete_at_end)

lemma decoder_init_complete_at_end: "complete_at_end (decoder_init BUFFER_SIZE upstream)"
  by (simp add: complete_at_end_def decoder_init_def)

lemma perform_monotone:
  assumes "complete_at_end d" and "in_order c (d_state d)"
  shows "state_rank (d_state d) \<le> state_rank (d_state (snd (perform c d)))"
proof (cases "d_state d = complete")
  case True
  with assms(1) have e: "eos (d_istream d)"
    by (simp add: complete_at_end_def)
  with True show ?thesis
    by (cases c) (simp_all add: decode_marker_eos decode_metadata_eos decode_audio_at_eos)
next
  case False
  show ?thesis
  proof (cases c)
    case Decode_marker
    with assms(2) False decode_marker_state [of d] show ?thesis
      by (cases "d_state d") auto
  next
    case Decode_metadata
    with False decode_metadata_state [of d] show ?thesis
      by (cases "d_state d") auto
  next
    case Decode_audio
    then show ?thesis
      by (cases "d_state d") (simp_all add: decode_audio_state)
  qed
qed

lemma perform_all_monotone:
  "complete_at_end d \<Longrightarrow> calls_in_order cs d \<Longrightarrow>
     state_rank (d_state d) \<le> state_rank (d_state (perform_all cs d))"
proof (induction cs arbitrary: d)
  case Nil
  then show ?case by simp
next
  case (Cons c cs)
  then have "state_rank (d_state d) \<le> state_rank (d_state (snd (perform c d)))"
    by (simp add: perform_monotone)
  also from Cons have "\<dots> \<le> state_rank (d_state (perform_all cs (snd (perform c d))))"
    by (simp add: perform_complete_at_end)
  finally show ?case by simp
qed

lemma perform_all_append: "perform_all (cs @ cs') d = perform_all cs' (perform_all cs d)"
  by (induction cs arbitrary: d) simp_all

lemma calls_in_order_append:
  "calls_in_order (cs @ cs') d \<longleftrightarrow>
     calls_in_order cs d \<and> calls_in_order cs' (perform_all cs d)"
  by (induction cs arbitrary: d) auto

text \<open>
  C3, as the code has it.  None of the three operations checks the state it is called in.
  From any state that a fresh decoder reaches by calls of the three operations, along any
  further sequence of calls in which \<^verbatim>\<open>decode_marker\<close> is not called in the state
  \<open>has_metadata\<close>, the state only moves forward in the order \<open>init\<close>, \<open>has_marker\<close>,
  \<open>has_metadata\<close>, \<open>complete\<close>: the state after any part of the sequence is not behind the
  state after a shorter part, whether the calls return or throw.
\<close>

theorem lifecycle_monotone:
  "calls_in_order (cs @ cs') (perform_all pre (decoder_init BUFFER_SIZE upstream)) \<Longrightarrow>
     state_rank (d_state (perform_all (pre @ cs) (decoder_init BUFFER_SIZE upstream)))
       \<le> state_rank (d_state (perform_all (pre @ cs @ cs') (decoder_init BUFFER_SIZE upstream)))"
proof -
  let ?d = "perform_all pre (decoder_init BUFFER_SIZE upstream)"
  assume o: "calls_in_order (cs @ cs') ?d"
  have "complete_at_end (perform_all cs ?d)"
    by (intro perform_all_complete_at_end decoder_init_complete_at_end)
  moreover from o have "calls_in_order cs' (perform_all cs ?d)"
    by (simp add: calls_in_order_append)
  ultimately have "state_rank (d_state (perform_all cs ?d))
      \<le> state_rank (d_state (perform_all cs' (perform_all cs ?d)))"
    by (rule perform_all_monotone)
  then show ?thesis
    by (simp add: perform_all_append)
qed

lemma marker_twice_marker: "decode_marker (decoder_init 4 stream_marker_twice) = (Inr (), (decoder_init 4 stream_marker_twice)\<lparr>d_istream := \<lparr>in_source = [0x81, 0x00, 0x00, 0x00, 0x66, 0x4C, 0x61, 0x43], in_bits = []\<rparr>, d_state := has_marker\<rparr>)"
  by (simp add: eval_simps stream_marker_twice_def)

lemma marker_twice_metadata: "decode_metadata ((decoder_init 4 stream_marker_twice)\<lparr>d_istream := \<lparr>in_source = [0x81, 0x00, 0x00, 0x00, 0x66, 0x4C, 0x61, 0x43], in_bits = []\<rparr>, d_state := has_marker\<rparr>)
   = (Inr (), (decoder_init 4 stream_marker_twice)\<lparr>d_istream := \<lparr>in_source = [0x66, 0x4C, 0x61, 0x43], in_bits = []\<rparr>, d_state := has_metadata\<rparr>)"
  by (simp add: eval_simps stream_marker_twice_def)

lemma marker_twice_marker2: "decode_marker ((decoder_init 4 stream_marker_twice)\<lparr>d_istream := \<lparr>in_source = [0x66, 0x4C, 0x61, 0x43], in_bits = []\<rparr>, d_state := has_metadata\<rparr>)
   = (Inr (), (decoder_init 4 stream_marker_twice)\<lparr>d_istream := \<lparr>in_source = [], in_bits = []\<rparr>, d_state := has_marker\<rparr>)"
  by (simp add: eval_simps stream_marker_twice_def)

text \<open>
  C3 as stated fails: on \<open>stream_marker_twice\<close> the calls \<^verbatim>\<open>decode_marker\<close>,
  \<^verbatim>\<open>decode_metadata\<close> reach \<open>has_metadata\<close> from the initial decoder, and a further
  \<^verbatim>\<open>decode_marker\<close> takes the state back to \<open>has_marker\<close>.
\<close>

theorem lifecycle_counterexample:
  "d_state (perform_all [Decode_marker, Decode_metadata] (decoder_init 4 stream_marker_twice)) = has_metadata \<and>
   d_state (perform_all [Decode_marker, Decode_metadata, Decode_marker] (decoder_init 4 stream_marker_twice)) = has_marker \<and>
   state_rank has_marker < state_rank has_metadata"
  by (simp add: marker_twice_marker marker_twice_metadata marker_twice_marker2)

lemma no_audio_marker:
  "decode_marker (decoder_init 4 stream_no_audio) =
     (Inr (), (decoder_init 4 stream_no_audio)\<lparr>d_istream :=
        \<lparr>in_source = [0x81, 0x00, 0x00, 0x00], in_bits = []\<rparr>, d_state := has_marker\<rparr>)"
  by (simp add: eval_simps stream_no_audio_def)

lemma no_audio_metadata:
  "decode_metadata ((decoder_init 4 stream_no_audio)\<lparr>d_istream :=
        \<lparr>in_source = [0x81, 0x00, 0x00, 0x00], in_bits = []\<rparr>, d_state := has_marker\<rparr>) =
     (Inr (), (decoder_init 4 stream_no_audio)\<lparr>d_istream :=
        \<lparr>in_source = [], in_bits = []\<rparr>, d_state := has_metadata\<rparr>)"
  by (simp add: eval_simps stream_no_audio_def)

lemma no_audio_audio:
  "decode_audio ((decoder_init 4 stream_no_audio)\<lparr>d_istream :=
        \<lparr>in_source = [], in_bits = []\<rparr>, d_state := has_metadata\<rparr>) =
     (Inr (), (decoder_init 4 stream_no_audio)\<lparr>d_istream :=
        \<lparr>in_source = [], in_bits = []\<rparr>, d_state := complete\<rparr>)"
  by (simp add: decode_audio_def bind_def gets_def modify_def eos_def)

lemma no_audio_metadata_again:
  "decode_metadata ((decoder_init 4 stream_no_audio)\<lparr>d_istream :=
        \<lparr>in_source = [], in_bits = []\<rparr>, d_state := complete\<rparr>) =
     (Inl UnexpectedEnd, (decoder_init 4 stream_no_audio)\<lparr>d_istream :=
        \<lparr>in_source = [], in_bits = []\<rparr>, d_state := complete\<rparr>)"
  by (simp add: decode_metadata_eos eos_def)

lemma no_audio_marker_again:
  "decode_marker ((decoder_init 4 stream_no_audio)\<lparr>d_istream :=
        \<lparr>in_source = [], in_bits = []\<rparr>, d_state := complete\<rparr>) =
     (Inl UnexpectedEnd, (decoder_init 4 stream_no_audio)\<lparr>d_istream :=
        \<lparr>in_source = [], in_bits = []\<rparr>, d_state := complete\<rparr>)"
  by (simp add: decode_marker_eos eos_def)

theorem lifecycle_monotone_witness:
  "calls_in_order ([Decode_metadata, Decode_audio] @ [Decode_metadata, Decode_marker])
     (perform_all [Decode_marker] (decoder_init 4 stream_no_audio)) \<and>
   d_state (perform_all [Decode_marker] (decoder_init 4 stream_no_audio)) = has_marker \<and>
   d_state (perform_all ([Decode_marker] @ [Decode_metadata, Decode_audio])
     (decoder_init 4 stream_no_audio)) = complete \<and>
   d_state (perform_all ([Decode_marker] @ [Decode_metadata, Decode_audio]
     @ [Decode_metadata, Decode_marker]) (decoder_init 4 stream_no_audio)) = complete \<and>
   state_rank (d_state (perform_all ([Decode_marker] @ [Decode_metadata, Decode_audio])
       (decoder_init 4 stream_no_audio)))
     \<le> state_rank (d_state (perform_all ([Decode_marker] @ [Decode_metadata, Decode_audio]
       @ [Decode_metadata, Decode_marker]) (decoder_init 4 stream_no_audio)))"
proof -
  note steps = no_audio_marker no_audio_metadata no_audio_audio no_audio_metadata_again
    no_audio_marker_again
  have o: "calls_in_order ([Decode_metadata, Decode_audio] @ [Decode_metadata, Decode_marker])
     (perform_all [Decode_marker] (decoder_init 4 stream_no_audio))"
    by (simp add: steps)
  have 1: "d_state (perform_all [Decode_marker] (decoder_init 4 stream_no_audio)) = has_marker"
    by (simp add: steps)
  have 2: "d_state (perform_all ([Decode_marker] @ [Decode_metadata, Decode_audio])
     (decoder_init 4 stream_no_audio)) = complete"
    by (simp add: steps)
  have 3: "d_state (perform_all ([Decode_marker] @ [Decode_metadata, Decode_audio]
     @ [Decode_metadata, Decode_marker]) (decoder_init 4 stream_no_audio)) = complete"
    by (simp add: steps)
  show ?thesis
    using o 1 2 3 lifecycle_monotone [OF o] by simp
qed

text \<open>
  C10.  \<^verbatim>\<open>decode_metadata\<close> assigns the state from the last-block flag before it reads the
  rest of the block.  When the flag read is 1, the state after the call is \<open>has_metadata\<close>
  however the call ends; in particular a call that throws while parsing the body leaves
  the decoder in \<open>has_metadata\<close>.
\<close>

theorem decode_metadata_not_atomic:
  assumes "get_uint 1 (d_istream d) = (Inr 1, r)"
  shows "d_state (snd (decode_metadata d)) = has_metadata \<and>
    (\<forall>e d'. decode_metadata d = (Inl e, d') \<longrightarrow> d_state d' = has_metadata)"
proof -
  from assms have "d_state (snd (decode_metadata d)) = has_metadata"
    unfolding decode_metadata_state_flag
    by (simp add: bind_def on_istream_def modify_def)
  then show ?thesis
    by auto
qed

lemma truncated_marker: "decode_marker (decoder_init 4 stream_truncated) = (Inr (), decoder_truncated)"
  by (simp add: eval_simps stream_truncated_def decoder_truncated_def)

lemma truncated_flag:
  "get_uint 1 (d_istream decoder_truncated) =
     (Inr 1, \<lparr>in_source = [0x00, 0x00, 0x22, 0x10, 0x00],
        in_bits = [False, False, False, False, False, False, False]\<rparr>)"
  by (simp add: reader_simps decoder_truncated_def)

lemma truncated_fails: "fst (decode_metadata decoder_truncated) = Inl UnexpectedEnd"
  by (simp add: eval_simps stream_truncated_def decoder_truncated_def)

theorem decode_metadata_not_atomic_witness:
  "decoder_truncated = snd (decode_marker (decoder_init 4 stream_truncated)) \<and>
   d_state decoder_truncated = has_marker \<and>
   fst (get_uint 1 (d_istream decoder_truncated)) = Inr 1 \<and>
   fst (decode_metadata decoder_truncated) = Inl UnexpectedEnd \<and>
   d_state (snd (decode_metadata decoder_truncated)) = has_metadata"
proof (intro conjI)
  show "decoder_truncated = snd (decode_marker (decoder_init 4 stream_truncated))"
    by (simp add: truncated_marker)
  show "d_state decoder_truncated = has_marker"
    by (simp add: decoder_truncated_def)
  show "fst (get_uint 1 (d_istream decoder_truncated)) = Inr 1"
    by (simp only: truncated_flag fst_conv)
  show "fst (decode_metadata decoder_truncated) = Inl UnexpectedEnd"
    by (rule truncated_fails)
  show "d_state (snd (decode_metadata decoder_truncated)) = has_metadata"
    using decode_metadata_not_atomic [OF truncated_flag] by (rule conjunct1)
qed

section \<open>Wasted bits and negative shifts\<close>

lemma decoder_ready_reached:
  "perform_all [Decode_marker, Decode_metadata] (decoder_init 16 (mono_stream frames)) =
     decoder_ready frames"
  by (simp add: eval_simps mono_stream_def streaminfo_block_def decoder_ready_def
      mono_streaminfo_def)

lemma frame_wasted_decoded:
  "fst (decode_audio (decoder_ready frame_wasted)) = Inr () \<and>
   d_buffer (snd (decode_audio (decoder_ready frame_wasted))) ! 0 = replicate 16 3"
  by (simp add: eval_simps decoder_ready_def mono_streaminfo_def frame_wasted_def)

text \<open>
  C1 does not hold of the code.  On \<open>mono_stream frame_wasted\<close> the subframe declares
  wasted bits and carries the sample 3; after \<^verbatim>\<open>decode_audio\<close> has returned, the channel
  holds 16 times the value 3 as it was read: the samples were not shifted to the left.
\<close>

theorem wasted_bits_not_restored:
  "perform_all [Decode_marker, Decode_metadata] (decoder_init 16 (mono_stream frame_wasted)) =
     decoder_ready frame_wasted \<and>
   fst (decode_audio (decoder_ready frame_wasted)) = Inr () \<and>
   d_buffer (snd (decode_audio (decoder_ready frame_wasted))) ! 0 = replicate 16 3"
  using decoder_ready_reached [of frame_wasted] frame_wasted_decoded by simp

lemma shift_minus_one: "unat (ucast (- 1 :: 64 word) :: 8 word) = 255"
proof -
  have "(ucast (- 1 :: 64 word) :: 8 word) = - 1"
    by (rule bit_word_eqI) (simp add: bit_simps)
  then show ?thesis
    by (simp add: unsigned_minus_1_eq_mask mask_eq_exp_minus_1)
qed

lemma frame_lpc_shift_0_decoded:
  "fst (decode_audio (decoder_ready frame_lpc_shift_0)) = Inr () \<and>
   d_buffer (snd (decode_audio (decoder_ready frame_lpc_shift_0))) ! 0 = replicate 16 4"
  by (simp add: eval_simps decoder_ready_def mono_streaminfo_def frame_lpc_shift_0_def)

lemma frame_lpc_shift_minus_1_decoded:
  "fst (decode_audio (decoder_ready frame_lpc_shift_minus_1)) = Inl Undefined"
  by (simp add: eval_simps decoder_ready_def mono_streaminfo_def frame_lpc_shift_minus_1_def
      shift_minus_one)

text \<open>
  C2 does not hold of the code.  With the shift field \<open>-1\<close> the \<^verbatim>\<open>int8_t\<close> value becomes
  the \<^verbatim>\<open>uint8_t\<close> argument 255, and \<^verbatim>\<open>sum >> 255\<close> on a 64-bit value has no defined
  result; the decoder does not reproduce what it decodes from the same frame with the
  shift field 0, which is 16 times the value 4.
\<close>

theorem lpc_negative_shift_not_clamped:
  "perform_all [Decode_marker, Decode_metadata]
     (decoder_init 16 (mono_stream frame_lpc_shift_minus_1)) =
     decoder_ready frame_lpc_shift_minus_1 \<and>
   fst (decode_audio (decoder_ready frame_lpc_shift_minus_1)) = Inl Undefined \<and>
   fst (decode_audio (decoder_ready frame_lpc_shift_0)) = Inr () \<and>
   d_buffer (snd (decode_audio (decoder_ready frame_lpc_shift_0))) ! 0 = replicate 16 4"
  using decoder_ready_reached [of frame_lpc_shift_minus_1] frame_lpc_shift_minus_1_decoded
    frame_lpc_shift_0_decoded
  by simp

section \<open>Block size code 7\<close>

lemma frame_block_size_wraps_decoded:
  "fst (decode_audio (decoder_ready frame_block_size_wraps)) = Inr () \<and>
   d_block_size (snd (decode_audio (decoder_ready frame_block_size_wraps))) = 0 \<and>
   d_buffer (snd (decode_audio (decoder_ready frame_block_size_wraps))) ! 0 = []"
  by (simp add: eval_simps decoder_ready_def mono_streaminfo_def frame_block_size_wraps_def)

text \<open>
  C7 does not hold of the code for code 7 when the next 16 bits are all ones.  The value
  read is 65535, and \<^verbatim>\<open>_get_block_size\<close> returns 0 instead of 65536 or of a failure: on
  \<open>mono_stream frame_block_size_wraps\<close> the call \<^verbatim>\<open>decode_audio\<close> returns normally with
  the block size 0 and an empty channel.
\<close>

theorem block_size_code_7_wraps:
  "fst (get_uint 16 (d_istream (decoder_init 4 [0xFF, 0xFF]))) = Inr 65535 \<and>
   fst (get_block_size 7 (decoder_init 4 [0xFF, 0xFF])) = Inr 0 \<and>
   perform_all [Decode_marker, Decode_metadata]
     (decoder_init 16 (mono_stream frame_block_size_wraps)) =
     decoder_ready frame_block_size_wraps \<and>
   fst (decode_audio (decoder_ready frame_block_size_wraps)) = Inr () \<and>
   d_block_size (snd (decode_audio (decoder_ready frame_block_size_wraps))) = 0 \<and>
   d_buffer (snd (decode_audio (decoder_ready frame_block_size_wraps))) ! 0 = []"
  using decoder_ready_reached [of frame_block_size_wraps] frame_block_size_wraps_decoded
  by (simp add: get_block_size_7 [OF get_uint_16_FFFF] get_uint_16_FFFF)

section \<open>Mid/side decorrelation\<close>

lemma take_drop_update:
  assumes "k < length xs" and "length ys = length xs"
  shows "(take k ys @ drop k xs)[k := ys ! k] = take (Suc k) ys @ drop (Suc k) xs"
proof -
  from assms have "drop k xs = xs ! k # drop (Suc k) xs"
    by (simp add: Cons_nth_drop_Suc)
  moreover from assms have "take (Suc k) ys = take k ys @ [ys ! k]"
    by (simp add: take_Suc_conv_app_nth)
  moreover from assms have "length (take k ys) = k"
    by simp
  ultimately show ?thesis
    by (simp add: list_update_append)
qed

lemma mid_side_step:
  assumes b: "d_buffer d = [take k L @ drop k mid, take k R @ drop k side]"
    and k: "k < n" and n: "length mid = n" "length side = n" "length L = n" "length R = n"
    and R: "R ! k = mid ! k - signed_drop_bit 1 (side ! k)"
    and L: "L ! k = mid ! k - signed_drop_bit 1 (side ! k) + side ! k"
  shows "bind (buf_get 1 k) (\<lambda>side.
          bind (buf_get 0 k) (\<lambda>x0.
          let right = x0 - signed_drop_bit 1 side in
          bind (buf_set 1 k right) (\<lambda>_.
          buf_set 0 k (right + side)))) d =
     (Inr (), d\<lparr>d_buffer := [take (Suc k) L @ drop (Suc k) mid, take (Suc k) R @ drop (Suc k) side]\<rparr>)"
proof -
  have 1: "(take k R @ drop k side)[k := R ! k] = take (Suc k) R @ drop (Suc k) side"
    using k n by (intro take_drop_update) simp_all
  have 0: "(take k L @ drop k mid)[k := L ! k] = take (Suc k) L @ drop (Suc k) mid"
    using k n by (intro take_drop_update) simp_all
  have g1: "(take k R @ drop k side) ! k = side ! k"
    using k n by (simp add: nth_append)
  have g0: "(take k L @ drop k mid) ! k = mid ! k"
    using k n by (simp add: nth_append)
  show ?thesis
    using b k n g0 g1 0 1 R L
    by (simp add: bind_def buf_get_def buf_set_def Let_def)
qed

lemma mid_side_loop:
  assumes n: "length mid = n" "length side = n"
    and R: "R = map2 (\<lambda>m s. m - signed_drop_bit 1 s) mid side"
    and L: "L = map2 (\<lambda>m s. m - signed_drop_bit 1 s + s) mid side"
  shows "k \<le> n \<Longrightarrow> d_buffer d = [take k L @ drop k mid, take k R @ drop k side] \<Longrightarrow>
    for_each [k..<n] (\<lambda>i.
          bind (buf_get 1 i) (\<lambda>side.
          bind (buf_get 0 i) (\<lambda>x0.
          let right = x0 - signed_drop_bit 1 side in
          bind (buf_set 1 i right) (\<lambda>_.
          buf_set 0 i (right + side))))) d = (Inr (), d\<lparr>d_buffer := [L, R]\<rparr>)"
proof (induction "n - k" arbitrary: k d)
  case 0
  then have "k = n" by simp
  with 0 n R L show ?case by simp
next
  case (Suc j)
  then have k: "k < n" by simp
  have len: "length L = n" "length R = n"
    using n R L by simp_all
  have Rk: "R ! k = mid ! k - signed_drop_bit 1 (side ! k)"
    using k n R by simp
  have Lk: "L ! k = mid ! k - signed_drop_bit 1 (side ! k) + side ! k"
    using k n L by simp
  note step = mid_side_step [OF Suc.prems(2) k n len Rk Lk]
  have up: "[k..<n] = k # [Suc k..<n]"
    using k by (rule upt_conv_Cons)
  let ?d' = "d\<lparr>d_buffer := [take (Suc k) L @ drop (Suc k) mid, take (Suc k) R @ drop (Suc k) side]\<rparr>"
  have "for_each [Suc k..<n] (\<lambda>i.
          bind (buf_get 1 i) (\<lambda>side.
          bind (buf_get 0 i) (\<lambda>x0.
          let right = x0 - signed_drop_bit 1 side in
          bind (buf_set 1 i right) (\<lambda>_.
          buf_set 0 i (right + side))))) ?d' = (Inr (), ?d'\<lparr>d_buffer := [L, R]\<rparr>)"
    using Suc.hyps(2) k by (intro Suc.hyps(1)) simp_all
  with step show ?case
    unfolding up by simp
qed

lemma decorrelate_mid_side:
  assumes "d_buffer d = [mid, side]" and "length mid = block_size" and "length side = block_size"
  shows "decorrelate 10 block_size d =
    (Inr (), d\<lparr>d_buffer :=
       [map2 (\<lambda>m s. m - signed_drop_bit 1 s + s) mid side,
        map2 (\<lambda>m s. m - signed_drop_bit 1 s) mid side]\<rparr>)"
  using assms mid_side_loop [OF assms(2,3) refl refl, of 0 d]
  by (simp add: decorrelate_def)

lemma bind_assoc: "bind (bind m f) g = bind m (\<lambda>x. bind (f x) g)"
  by (rule ext) (simp add: bind_def split: prod.splits sum.splits)

lemma bind_return: "bind (return x) f = f x"
  by (rule ext) (simp add: bind_def return_def)

lemma bind_throw: "bind (throw e) f = throw e"
  by (rule ext) (simp add: bind_def throw_def)

lemma bind_if: "bind (if c then a else b) f = (if c then bind a f else bind b f)"
  by simp

lemma decode_audio_stages:
  "decode_audio =
     bind (gets (\<lambda>d. eos (d_istream d))) (\<lambda>at_end.
     if at_end then modify (\<lambda>d. d\<lparr>d_state := complete\<rparr>) else
     bind frame_header (\<lambda>(bs, channel_assignment_bitset, sample_bit_size).
     bind
       (if channel_assignment_bitset < 8 then
          bind (gets (\<lambda>d. si_channel_count (d_streaminfo d))) (\<lambda>count.
          bind (for_each [0..<unat count] (\<lambda>c.
            bind (modify (\<lambda>d. d\<lparr>d_channel_idx := word_of_nat c\<rparr>)) (\<lambda>_.
            bind (buf_resize c (unat bs)) (\<lambda>_.
            decode_subframe sample_bit_size)))) (\<lambda>_.
          modify (\<lambda>d. d\<lparr>d_channel_idx := count\<rparr>)))
        else if channel_assignment_bitset < 11 then
          bind (stereo_subframes channel_assignment_bitset bs sample_bit_size) (\<lambda>_.
          decorrelate channel_assignment_bitset (unat bs))
        else throw Unsupported) (\<lambda>_. frame_footer)))"
  unfolding decode_audio_def frame_header_def stereo_subframes_def frame_footer_def Let_def
  by (simp add: bind_assoc bind_return bind_throw bind_if cong: if_cong)

lemma keeps_lengthsD:
  "keeps_lengths m \<Longrightarrow> map length (d_buffer (snd (m d))) = map length (d_buffer d)"
  by (simp add: keeps_lengths_def)

lemma keeps_lengths_return [keeps_lengths_intros]: "keeps_lengths (return x)"
  by (simp add: keeps_lengths_def return_def)

lemma keeps_lengths_throw [keeps_lengths_intros]: "keeps_lengths (throw e)"
  by (simp add: keeps_lengths_def throw_def)

lemma keeps_lengths_gets [keeps_lengths_intros]: "keeps_lengths (gets f)"
  by (simp add: keeps_lengths_def gets_def)

lemma keeps_lengths_channel [keeps_lengths_intros]: "keeps_lengths channel"
  by (simp add: channel_def keeps_lengths_gets)

lemma keeps_lengths_on_istream [keeps_lengths_intros]: "keeps_lengths (on_istream f)"
  by (simp add: keeps_lengths_def on_istream_def split: prod.splits)

lemma keeps_lengths_bind [keeps_lengths_intros]:
  assumes "keeps_lengths m" and "\<And>x. keeps_lengths (f x)"
  shows "keeps_lengths (bind m f)"
  unfolding keeps_lengths_def
proof
  fix d
  obtain res d' where m: "m d = (res, d')"
    by (cases "m d")
  with assms(1) have s: "map length (d_buffer d') = map length (d_buffer d)"
    by (metis keeps_lengthsD snd_conv)
  show "map length (d_buffer (snd (bind m f d))) = map length (d_buffer d)"
  proof (cases res)
    case (Inl e)
    with m s show ?thesis by (simp add: bind_def)
  next
    case (Inr x)
    with m have "bind m f d = f x d'" by (simp add: bind_def)
    with assms(2) [of x] s show ?thesis by (simp add: keeps_lengths_def)
  qed
qed

lemma keeps_lengths_if [keeps_lengths_intros]:
  "(c \<Longrightarrow> keeps_lengths a) \<Longrightarrow> (\<not> c \<Longrightarrow> keeps_lengths b) \<Longrightarrow>
   keeps_lengths (if c then a else b)"
  by simp

lemma keeps_lengths_for_each [keeps_lengths_intros]:
  assumes "\<And>i. keeps_lengths (body i)"
  shows "keeps_lengths (for_each is body)"
  unfolding keeps_lengths_def
proof
  fix d
  show "map length (d_buffer (snd (for_each is body d))) = map length (d_buffer d)"
  proof (induction "is" arbitrary: d)
    case Nil
    then show ?case by simp
  next
    case (Cons i "is")
    obtain res d' where b: "body i d = (res, d')"
      by (cases "body i d")
    with assms [of i] have s: "map length (d_buffer d') = map length (d_buffer d)"
      by (metis keeps_lengthsD snd_conv)
    show ?case
    proof (cases res)
      case (Inl e)
      with b s show ?thesis by simp
    next
      case (Inr u)
      with b s Cons.IH [of d'] show ?thesis by simp
    qed
  qed
qed

lemma keeps_lengths_buf_size [keeps_lengths_intros]: "keeps_lengths (buf_size c)"
  by (simp add: keeps_lengths_def buf_size_def)

lemma keeps_lengths_buf_get [keeps_lengths_intros]: "keeps_lengths (buf_get c i)"
  by (simp add: keeps_lengths_def buf_get_def)

lemma map_length_update:
  "length ys = length (xss ! c) \<Longrightarrow> map length (xss[c := ys]) = map length xss"
  by (metis list_update_id map_update)

lemma keeps_lengths_buf_set [keeps_lengths_intros]: "keeps_lengths (buf_set c i v)"
  by (simp add: keeps_lengths_def buf_set_def map_length_update)

lemma keeps_lengths_modify:
  "(\<And>d. d_buffer (f d) = d_buffer d) \<Longrightarrow> keeps_lengths (modify f)"
  by (simp add: keeps_lengths_def modify_def)

lemma keeps_lengths_get_rice_int [keeps_lengths_intros]: "keeps_lengths (get_rice_int k)"
  unfolding get_rice_int_def Let_def by (intro keeps_lengths_intros)

lemma keeps_lengths_decode_residuals [keeps_lengths_intros]:
  "keeps_lengths (decode_residuals order)"
  unfolding decode_residuals_def Let_def by (intro keeps_lengths_intros)

lemma keeps_lengths_restore [keeps_lengths_intros]:
  "keeps_lengths (restore_linear_prediction coefficients order shift)"
  unfolding restore_linear_prediction_def by (intro keeps_lengths_intros)

lemma keeps_lengths_fixed [keeps_lengths_intros]:
  "keeps_lengths (decode_subframe_fixed order bits)"
  unfolding decode_subframe_fixed_def by (intro keeps_lengths_intros)

lemma keeps_lengths_lpc [keeps_lengths_intros]:
  "keeps_lengths (decode_subframe_lpc order bits)"
  unfolding decode_subframe_lpc_def Let_def
  by (intro keeps_lengths_intros keeps_lengths_modify) simp

lemma keeps_lengths_shift_wasted [keeps_lengths_intros]: "keeps_lengths (shift_wasted_bits k)"
  unfolding shift_wasted_bits_def Let_def by (intro keeps_lengths_intros)

text \<open>The constant subframe fills the channel with as many samples as it has.\<close>

lemma keeps_lengths_constant [keeps_lengths_intros]:
  "keeps_lengths
     (bind channel (\<lambda>c.
      bind (buf_size c) (\<lambda>size.
      bind (on_istream (get_int n)) (\<lambda>v.
      modify (\<lambda>d. d\<lparr>d_buffer := (d_buffer d)[c := replicate size v]\<rparr>)))))"
  by (simp add: keeps_lengths_def bind_def channel_def gets_def buf_size_def on_istream_def
      modify_def map_length_update split: prod.splits sum.splits)

lemma keeps_lengths_decode_subframe [keeps_lengths_intros]:
  "keeps_lengths (decode_subframe bits)"
  unfolding decode_subframe_def Let_def by (intro keeps_lengths_intros)

lemma bind_InrD:
  "bind m f d = (Inr y, d') \<Longrightarrow> \<exists>x d1. m d = (Inr x, d1) \<and> f x d1 = (Inr y, d')"
  by (auto simp: bind_def split: prod.splits sum.splits)

lemma length_resize: "length (resize n xs) = n"
  by (simp add: resize_def)

lemma buf_resize_lengths:
  "buf_resize c n d = (Inr u, d') \<Longrightarrow>
   map length (d_buffer d') = (map length (d_buffer d))[c := n]"
  by (auto simp: buf_resize_def map_update length_resize split: if_splits)

lemma stereo_subframes_lengths:
  assumes "stereo_subframes ca bs sbs d1 = (Inr (), d2)"
  shows "map length (d_buffer d2) = (map length (d_buffer d1))[0 := unat bs, 1 := unat bs]"
proof -
  let ?a = "d1\<lparr>d_channel_idx := 0\<rparr>"
  from assms have "bind (buf_resize 0 (unat bs)) (\<lambda>_.
     bind (decode_subframe (sbs + (if ca = 9 then 1 else 0))) (\<lambda>_.
     bind (modify (\<lambda>d. d\<lparr>d_channel_idx := 1\<rparr>)) (\<lambda>_.
     bind (buf_resize 1 (unat bs)) (\<lambda>_.
     decode_subframe (sbs + (if ca = 9 then 0 else 1)))))) ?a = (Inr (), d2)"
    by (simp add: stereo_subframes_def bind_def modify_def)
  then obtain u b where b: "buf_resize 0 (unat bs) ?a = (Inr u, b)"
    and 1: "bind (decode_subframe (sbs + (if ca = 9 then 1 else 0))) (\<lambda>_.
     bind (modify (\<lambda>d. d\<lparr>d_channel_idx := 1\<rparr>)) (\<lambda>_.
     bind (buf_resize 1 (unat bs)) (\<lambda>_.
     decode_subframe (sbs + (if ca = 9 then 0 else 1))))) b = (Inr (), d2)"
    by (blast dest: bind_InrD)
  from 1 obtain u' c where c: "decode_subframe (sbs + (if ca = 9 then 1 else 0)) b = (Inr u', c)"
    and 2: "bind (modify (\<lambda>d. d\<lparr>d_channel_idx := 1\<rparr>)) (\<lambda>_.
     bind (buf_resize 1 (unat bs)) (\<lambda>_.
     decode_subframe (sbs + (if ca = 9 then 0 else 1)))) c = (Inr (), d2)"
    by (blast dest: bind_InrD)
  let ?c = "c\<lparr>d_channel_idx := 1\<rparr>"
  from 2 have "bind (buf_resize 1 (unat bs)) (\<lambda>_.
     decode_subframe (sbs + (if ca = 9 then 0 else 1))) ?c = (Inr (), d2)"
    by (simp add: bind_def modify_def)
  then obtain u'' e where e: "buf_resize 1 (unat bs) ?c = (Inr u'', e)"
    and 3: "decode_subframe (sbs + (if ca = 9 then 0 else 1)) e = (Inr (), d2)"
    by (blast dest: bind_InrD)
  have dl: "map length (d_buffer (snd (decode_subframe bits d))) = map length (d_buffer d)"
    for bits d
    by (rule keeps_lengthsD [OF keeps_lengths_decode_subframe])
  have lb: "map length (d_buffer b) = (map length (d_buffer d1))[0 := unat bs]"
    using buf_resize_lengths [OF b] by simp
  have lc: "map length (d_buffer c) = map length (d_buffer b)"
    using dl [of "sbs + (if ca = 9 then 1 else 0)" b] c by simp
  have le: "map length (d_buffer e) = (map length (d_buffer c))[1 := unat bs]"
    using buf_resize_lengths [OF e] by simp
  have l2: "map length (d_buffer d2) = map length (d_buffer e)"
    using dl [of "sbs + (if ca = 9 then 0 else 1)" e] 3 by simp
  show ?thesis
    by (simp only: l2 le lc lb)
qed

lemma frame_footer_buffer: "d_buffer (snd (frame_footer d)) = d_buffer d"
  by (simp add: frame_footer_def bind_def modify_def on_istream_def return_def
      split: prod.splits sum.splits)

text \<open>
  C5.  For a frame of channel assignment 10, \<^verbatim>\<open>decode_audio\<close> reads the header and the
  two subframes, which leave the mid samples in channel 0 and the side samples in channel
  1, both of the length of the block.  It then computes for every index
  \<open>r = mid[i] - (side[i] >> 1)\<close> with the arithmetic shift, stores \<open>r\<close> in channel 1 and
  \<open>r + side[i]\<close> in channel 0, and these are the channels when the call ends.  With block
  size 2, mid \<open>[100, 100]\<close> and side \<open>[4, -4]\<close> this gives \<open>[102, 98]\<close> and \<open>[98, 102]\<close>.
\<close>

theorem mid_side_frame:
  assumes "\<not> eos (d_istream d)"
    and "frame_header d = (Inr (bs, 10, sample_bit_size), d1)"
    and "stereo_subframes 10 bs sample_bit_size d1 = (Inr (), d2)"
    and "d_buffer d2 = [mid, side]"
  shows "length mid = unat bs \<and> length side = unat bs \<and>
    d_buffer (snd (decode_audio d)) =
      [map2 (\<lambda>m s. m - signed_drop_bit 1 s + s) mid side,
       map2 (\<lambda>m s. m - signed_drop_bit 1 s) mid side]"
proof -
  let ?L = "map2 (\<lambda>m s. m - signed_drop_bit 1 s + s) mid side"
  let ?R = "map2 (\<lambda>m s. m - signed_drop_bit 1 s) mid side"
  from stereo_subframes_lengths [OF assms(3)] assms(4)
  have "[length mid, length side] = (map length (d_buffer d1))[0 := unat bs, 1 := unat bs]"
    by simp
  then have len: "length mid = unat bs" "length side = unat bs"
    by (cases "d_buffer d1"; cases "tl (d_buffer d1)"; simp)+
  from decorrelate_mid_side [OF assms(4) len]
  have dec: "decorrelate 10 (unat bs) d2 = (Inr (), d2\<lparr>d_buffer := [?L, ?R]\<rparr>)" .
  have "decode_audio d = frame_footer (d2\<lparr>d_buffer := [?L, ?R]\<rparr>)"
    using assms(1,2,3) dec
    by (simp add: decode_audio_stages bind_def gets_def)
  then show ?thesis
    using len by (simp add: frame_footer_buffer)
qed

lemma mid_side_not_eos: "\<not> eos (d_istream (decoder_init 2 frame_mid_side))"
  by (simp add: eos_def decoder_init_def bit_input_init_def frame_mid_side_def)

lemma mid_side_header:
  "frame_header (decoder_init 2 frame_mid_side) = (Inr (2, 10, 8), decoder_mid_side_1)"
  by (simp add: eval_simps frame_header_def frame_mid_side_def decoder_mid_side_1_def)

lemma mid_side_subframes:
  "stereo_subframes 10 2 8 decoder_mid_side_1 = (Inr (), decoder_mid_side_2)"
  by (simp add: eval_simps stereo_subframes_def frame_mid_side_def decoder_mid_side_1_def
      decoder_mid_side_2_def)

lemma mid_side_buffer: "d_buffer decoder_mid_side_2 = [[100, 100], [4, - 4]]"
  by (simp add: decoder_mid_side_2_def)

theorem mid_side_frame_witness:
  "\<not> eos (d_istream (decoder_init 2 frame_mid_side)) \<and>
   frame_header (decoder_init 2 frame_mid_side) = (Inr (2, 10, 8), decoder_mid_side_1) \<and>
   stereo_subframes 10 2 8 decoder_mid_side_1 = (Inr (), decoder_mid_side_2) \<and>
   d_buffer decoder_mid_side_2 = [[100, 100], [4, - 4]] \<and>
   d_buffer (snd (decode_audio (decoder_init 2 frame_mid_side))) = [[102, 98], [98, 102]]"
proof -
  have s: "signed_drop_bit 1 (4 :: 64 word) = 2" "signed_drop_bit 1 (- 4 :: 64 word) = - 2"
    by simp_all
  have "d_buffer (snd (decode_audio (decoder_init 2 frame_mid_side))) = [[102, 98], [98, 102]]"
    using mid_side_frame [OF mid_side_not_eos mid_side_header mid_side_subframes mid_side_buffer]
    by (simp add: s)
  then show ?thesis
    using mid_side_not_eos mid_side_header mid_side_subframes mid_side_buffer by simp
qed

lemma frame_mid_side_decoded:
  "fst (decode_audio (decoder_init 2 frame_mid_side)) = Inr () \<and>
   d_buffer (snd (decode_audio (decoder_init 2 frame_mid_side))) = [[102, 98], [98, 102]]"
  by (simp add: eval_simps frame_mid_side_def)

section \<open>Residual partitions\<close>

lemma never_raisesD: "never_raises e m \<Longrightarrow> fst (m d) \<noteq> Inl e"
  by (simp add: never_raises_def)

lemma never_raises_return [never_raises_intros]: "never_raises e (return x)"
  by (simp add: never_raises_def return_def)

lemma never_raises_throw [never_raises_intros]: "e' \<noteq> e \<Longrightarrow> never_raises e (throw e')"
  by (simp add: never_raises_def throw_def)

lemma never_raises_gets [never_raises_intros]: "never_raises e (gets f)"
  by (simp add: never_raises_def gets_def)

lemma never_raises_modify [never_raises_intros]: "never_raises e (modify f)"
  by (simp add: never_raises_def modify_def)

lemma never_raises_bind [never_raises_intros]:
  assumes "never_raises e m" and "\<And>x. never_raises e (f x)"
  shows "never_raises e (bind m f)"
  unfolding never_raises_def
proof
  fix d
  obtain res d' where m: "m d = (res, d')"
    by (cases "m d")
  show "fst (bind m f d) \<noteq> Inl e"
  proof (cases res)
    case (Inl e')
    with m assms(1) have "e' \<noteq> e"
      by (metis never_raisesD fst_conv)
    with m Inl show ?thesis
      by (simp add: bind_def)
  next
    case (Inr x)
    with m have "bind m f d = f x d'"
      by (simp add: bind_def)
    with assms(2) [of x] show ?thesis
      by (simp add: never_raises_def)
  qed
qed

lemma never_raises_if [never_raises_intros]:
  "(c \<Longrightarrow> never_raises e a) \<Longrightarrow> (\<not> c \<Longrightarrow> never_raises e b) \<Longrightarrow>
   never_raises e (if c then a else b)"
  by simp

lemma never_raises_for_each [never_raises_intros]:
  assumes "\<And>i. never_raises e (body i)"
  shows "never_raises e (for_each is body)"
  unfolding never_raises_def
proof
  fix d
  show "fst (for_each is body d) \<noteq> Inl e"
  proof (induction "is" arbitrary: d)
    case Nil
    then show ?case by simp
  next
    case (Cons i "is")
    obtain res d' where b: "body i d = (res, d')"
      by (cases "body i d")
    show ?case
    proof (cases res)
      case (Inl e')
      with b assms [of i] have "e' \<noteq> e"
        by (metis never_raisesD fst_conv)
      with b Inl show ?thesis by simp
    next
      case (Inr u)
      with b Cons.IH [of d'] show ?thesis by simp
    qed
  qed
qed

lemma never_raises_on_istream:
  "(\<And>r. fst (f r) \<noteq> Inl e) \<Longrightarrow> never_raises e (on_istream f)"
  by (simp add: never_raises_def on_istream_def split: prod.splits) (metis fst_conv)

lemma never_raises_buf_get [never_raises_intros]:
  "e \<noteq> Undefined \<Longrightarrow> never_raises e (buf_get c i)"
  by (auto simp: never_raises_def buf_get_def)

lemma never_raises_buf_set [never_raises_intros]:
  "e \<noteq> Undefined \<Longrightarrow> never_raises e (buf_set c i v)"
  by (auto simp: never_raises_def buf_set_def)

lemma get_bit_error: "fst (get_bit r) = Inl e \<Longrightarrow> e = UnexpectedEnd"
  by (auto simp: get_bit_def split: list.splits)

lemma get_bits_error: "fst (get_bits n acc r) = Inl e \<Longrightarrow> e = UnexpectedEnd"
proof (induction n arbitrary: acc r)
  case 0
  then show ?case by simp
next
  case (Suc n)
  obtain res r' where g: "get_bit r = (res, r')"
    by (cases "get_bit r")
  show ?case
  proof (cases res)
    case (Inl e')
    with g Suc.prems have "e' = e" by simp
    with g Inl get_bit_error [of r e] show ?thesis by simp
  next
    case (Inr b)
    with g Suc.prems have "fst (get_bits n (2 * acc + of_bool b) r') = Inl e" by simp
    then show ?thesis by (rule Suc.IH)
  qed
qed

lemma get_uint_error: "fst (get_uint n r) = Inl e \<Longrightarrow> e = UnexpectedEnd"
  unfolding get_uint_def by (rule get_bits_error)

lemma get_int_error: "fst (get_int n r) = Inl e \<Longrightarrow> e = UnexpectedEnd"
  using get_uint_error [of n r e]
  by (auto simp: get_int_def split: prod.splits sum.splits)

lemma rice_unary_error: "fst (rice_unary uval r) = Inl e \<Longrightarrow> e = UnexpectedEnd"
proof (induction uval r rule: rice_unary.induct)
  case (1 uval r)
  obtain res r' where g: "get_uint 1 r = (res, r')"
    by (cases "get_uint 1 r")
  show ?case
  proof (cases res)
    case (Inl e')
    with g "1.prems" have "e' = e"
      by (simp add: rice_unary.simps [of uval r])
    with g Inl get_uint_error [of 1 r e] show ?thesis by simp
  next
    case (Inr b)
    show ?thesis
    proof (cases "b = 0")
      case True
      with g Inr "1.prems" have "fst (rice_unary (uval + 1) r') = Inl e"
        by (simp add: rice_unary.simps [of uval r])
      with g Inr True show ?thesis
        using "1.IH" by simp
    next
      case False
      with g Inr "1.prems" show ?thesis
        by (simp add: rice_unary.simps [of uval r])
    qed
  qed
qed

lemma never_raises_get_uint [never_raises_intros]:
  "e \<noteq> UnexpectedEnd \<Longrightarrow> never_raises e (on_istream (get_uint n))"
  by (rule never_raises_on_istream) (auto dest: get_uint_error)

lemma never_raises_get_int [never_raises_intros]:
  "e \<noteq> UnexpectedEnd \<Longrightarrow> never_raises e (on_istream (get_int n))"
  by (rule never_raises_on_istream) (auto dest: get_int_error)

lemma never_raises_rice_unary [never_raises_intros]:
  "e \<noteq> UnexpectedEnd \<Longrightarrow> never_raises e (on_istream (rice_unary uval))"
  by (rule never_raises_on_istream) (auto dest: rice_unary_error)

lemma never_raises_get_rice_int [never_raises_intros]:
  "e \<noteq> UnexpectedEnd \<Longrightarrow> e \<noteq> Undefined \<Longrightarrow> never_raises e (get_rice_int k)"
  unfolding get_rice_int_def Let_def by (intro never_raises_intros) simp_all

lemma throw_or_never:
  "never_raises e m \<Longrightarrow> fst ((if c then throw e else m) d) = Inl e \<longleftrightarrow> c"
  by (simp add: never_raises_def throw_def)

text \<open>
  C6, as the code has it.  Once the coding method (0 or 1) and the partition order \<open>p\<close> are
  read, residual decoding fails with \<open>BadPartitioning\<close> exactly when \<open>2 ^ p\<close> does not
  divide the length of the channel buffer, which is the block size.  The predictor order
  plays no part in the test.
\<close>

theorem bad_partitioning_iff:
  assumes "get_uint 2 (d_istream d) = (Inr coding_method, r1)"
    and "coding_method \<le> 1"
    and "get_uint 4 r1 = (Inr partition_order, r2)"
    and "unat (d_channel_idx d) < length (d_buffer d)"
  shows "fst (decode_residuals order d) = Inl BadPartitioning \<longleftrightarrow>
    \<not> 2 ^ partition_order dvd length (d_buffer d ! unat (d_channel_idx d))"
proof -
  let ?c = "unat (d_channel_idx d)"
  let ?d1 = "d\<lparr>d_istream := r1\<rparr>"
  let ?d2 = "d\<lparr>d_istream := r2\<rparr>"
  have 1: "on_istream (get_uint 2) d = (Inr coding_method, ?d1)"
    using assms(1) by (rule on_istream_eq)
  have 2: "on_istream (get_uint 4) ?d1 = (Inr partition_order, ?d2)"
    using assms(3) by (simp add: on_istream_def)
  have 3: "channel ?d2 = (Inr ?c, ?d2)"
    by (simp add: channel_def gets_def)
  have 4: "buf_size ?c ?d2 = (Inr (length (d_buffer d ! ?c)), ?d2)"
    using assms(4) by (simp add: buf_size_def)
  have m: "(1 < coding_method) = False"
    using assms(2) by simp
  show ?thesis
    unfolding decode_residuals_def
    apply (subst bind_Inr [of "on_istream (get_uint 2)" d, OF 1])
    apply (simp only: m if_False)
    apply (subst bind_Inr [of "on_istream (get_uint 4)" ?d1, OF 2])
    apply (unfold Let_def)
    apply (subst bind_Inr [of channel ?d2, OF 3])
    apply (subst bind_Inr [of "buf_size ?c" ?d2, OF 4])
    apply (subst throw_or_never)
     apply (intro never_raises_intros; simp)
    apply (simp add: mod_eq_0_iff_dvd)
    done
qed

lemma partition_4_method:
  "get_uint 2 (d_istream decoder_partition_4) =
     (Inr 0, \<lparr>in_source = [0x21, 0x80], in_bits = [False, False, False, True, False, False]\<rparr>)"
  by (simp add: reader_simps decoder_partition_4_def decoder_init_def)

lemma partition_4_order:
  "get_uint 4 \<lparr>in_source = [0x21, 0x80], in_bits = [False, False, False, True, False, False]\<rparr> =
     (Inr 1, \<lparr>in_source = [0x21, 0x80], in_bits = [False, False]\<rparr>)"
  by (simp add: reader_simps)

lemma partition_5_method:
  "get_uint 2 (d_istream decoder_partition_5) =
     (Inr 0, \<lparr>in_source = [0x21, 0x80], in_bits = [False, False, False, True, False, False]\<rparr>)"
  by (simp add: reader_simps decoder_partition_5_def decoder_init_def)

lemma partition_4_decoded:
  "decode_residuals 1 decoder_partition_4 =
     (Inr (), decoder_partition_4\<lparr>d_istream := \<lparr>in_source = [], in_bits = [False, False, False, False, False, False, False]\<rparr>\<rparr>)"
  by (simp add: eval_simps decoder_partition_4_def)

lemma partition_5_decoded:
  "fst (decode_residuals 1 decoder_partition_5) = Inl BadPartitioning"
  by (simp add: eval_simps decoder_partition_5_def)

text \<open>
  C6 as stated fails in both directions for the predictor order 1 and the partition order
  1.  With block size 4 the partition count 2 does not divide \<open>4 - 1\<close>, and the residuals
  are decoded without error; with block size 5 it divides \<open>5 - 1\<close>, and decoding fails
  with \<open>BadPartitioning\<close>.
\<close>

theorem bad_partitioning_counterexample:
  "length (d_buffer decoder_partition_4 ! unat (d_channel_idx decoder_partition_4)) = 4 \<and>
   fst (get_uint 4 (snd (get_uint 2 (d_istream decoder_partition_4)))) = Inr 1 \<and>
   \<not> (2::nat) ^ 1 dvd 4 - 1 \<and>
   fst (decode_residuals 1 decoder_partition_4) = Inr () \<and>
   length (d_buffer decoder_partition_5 ! unat (d_channel_idx decoder_partition_5)) = 5 \<and>
   fst (get_uint 4 (snd (get_uint 2 (d_istream decoder_partition_5)))) = Inr 1 \<and>
   (2::nat) ^ 1 dvd 5 - 1 \<and>
   fst (decode_residuals 1 decoder_partition_5) = Inl BadPartitioning"
proof -
  have "length (d_buffer decoder_partition_4 ! unat (d_channel_idx decoder_partition_4)) = 4"
    by (simp add: decoder_partition_4_def decoder_init_def max_channel_count_def)
  moreover have "length (d_buffer decoder_partition_5 ! unat (d_channel_idx decoder_partition_5)) = 5"
    by (simp add: decoder_partition_5_def decoder_init_def max_channel_count_def)
  moreover have "fst (get_uint 4 (snd (get_uint 2 (d_istream decoder_partition_4)))) = Inr 1"
    by (simp only: partition_4_method partition_4_order snd_conv fst_conv)
  moreover have "fst (get_uint 4 (snd (get_uint 2 (d_istream decoder_partition_5)))) = Inr 1"
    by (simp only: partition_5_method partition_4_order snd_conv fst_conv)
  moreover have "\<not> (2::nat) ^ 1 dvd 4 - 1" "(2::nat) ^ 1 dvd 5 - 1"
    by simp_all
  ultimately show ?thesis
    using partition_4_decoded partition_5_decoded by simp
qed

theorem bad_partitioning_iff_witness:
  "get_uint 2 (d_istream decoder_partition_5) =
     (Inr 0, \<lparr>in_source = [0x21, 0x80], in_bits = [False, False, False, True, False, False]\<rparr>) \<and>
   (0::nat) \<le> 1 \<and>
   get_uint 4 \<lparr>in_source = [0x21, 0x80], in_bits = [False, False, False, True, False, False]\<rparr> =
     (Inr 1, \<lparr>in_source = [0x21, 0x80], in_bits = [False, False]\<rparr>) \<and>
   unat (d_channel_idx decoder_partition_5) < length (d_buffer decoder_partition_5) \<and>
   fst (decode_residuals 1 decoder_partition_5) = Inl BadPartitioning \<and>
   fst (decode_residuals 1 decoder_partition_4) \<noteq> Inl BadPartitioning"
proof -
  have c5: "unat (d_channel_idx decoder_partition_5) < length (d_buffer decoder_partition_5)"
    by (simp add: decoder_partition_5_def decoder_init_def max_channel_count_def)
  have c4: "unat (d_channel_idx decoder_partition_4) < length (d_buffer decoder_partition_4)"
    by (simp add: decoder_partition_4_def decoder_init_def max_channel_count_def)
  have l5: "length (d_buffer decoder_partition_5 ! unat (d_channel_idx decoder_partition_5)) = 5"
    by (simp add: decoder_partition_5_def decoder_init_def max_channel_count_def)
  have l4: "length (d_buffer decoder_partition_4 ! unat (d_channel_idx decoder_partition_4)) = 4"
    by (simp add: decoder_partition_4_def decoder_init_def max_channel_count_def)
  have m: "(0::nat) \<le> 1"
    by simp
  have "fst (decode_residuals 1 decoder_partition_5) = Inl BadPartitioning"
    using bad_partitioning_iff [OF partition_5_method m partition_4_order c5, of 1]
    by (simp add: l5)
  moreover have "fst (decode_residuals 1 decoder_partition_4) \<noteq> Inl BadPartitioning"
    using bad_partitioning_iff [OF partition_4_method m partition_4_order c4, of 1]
    by (simp add: l4)
  ultimately show ?thesis
    using partition_5_method partition_4_order c5 by simp
qed

section \<open>The WAVE header\<close>

lemma put_int32_bytes: "put_int32 val e = e\<lparr>e_ostream := e_ostream e @ int32_bytes val\<rparr>"
  by (simp add: put_int32_def put_def int32_bytes_def Let_def)

lemma put_int16_bytes: "put_int16 val e = e\<lparr>e_ostream := e_ostream e @ int16_bytes val\<rparr>"
  by (simp add: put_int16_def put_def int16_bytes_def Let_def)

lemma put_string_bytes: "put_string val e = e\<lparr>e_ostream := e_ostream e @ map of_char val\<rparr>"
  unfolding put_string_def by (induction val arbitrary: e) (simp_all add: put_def)

lemma length_int32_bytes: "length (int32_bytes val) = 4"
  by (simp add: int32_bytes_def)

lemma length_int16_bytes: "length (int16_bytes val) = 2"
  by (simp add: int16_bytes_def)

lemma header_fields:
  "riff_size_field (header info e) =
     int32_bytes (ucast (4 + 8 + 16 + 8 + (ucast (wi_channel_count info) * wi_sample_count info
                        * ucast (wi_sample_bit_size info) :: 64 word)))"
  "data_size_field (header info e) =
     int32_bytes (ucast (ucast (wi_channel_count info) * wi_sample_count info
                        * ucast (wi_sample_bit_size info) :: 64 word))"
  by (simp_all add: header_def riff_size_field_def data_size_field_def encode_header_def Let_def
      put_int32_bytes put_int16_bytes put_string_bytes length_int32_bytes length_int16_bytes)

lemma byte_of_shift:
  assumes "n \<le> 24"
  shows "unat (ucast (signed_drop_bit n (w :: 32 word) AND 0xff) :: byte) = unat w div 2 ^ n mod 256"
proof -
  have m: "(0xff :: 32 word) = mask 8"
    by (simp add: mask_eq_exp_minus_1)
  have "(ucast (signed_drop_bit n w AND 0xff) :: byte) = ucast (drop_bit n w)"
    unfolding m using assms by (intro bit_word_eqI) (auto simp: bit_simps)
  moreover have "unat (ucast (drop_bit n w) :: byte) = unat (drop_bit n w) mod 256"
    by (simp add: unsigned_ucast_eq take_bit_eq_mod)
  moreover have "unat (drop_bit n w) = unat w div 2 ^ n"
    unfolding unat_drop_bit_eq by (simp add: drop_bit_eq_div)
  ultimately show ?thesis
    by simp
qed

lemma base_256:
  "u mod 256 + 256 * (u div 256 mod 256) + 65536 * (u div 65536 mod 256)
     + 16777216 * (u div 16777216) = (u::nat)"
proof -
  have e2: "u div 65536 = u div 256 div 256"
    using div_mult2_eq [of u 256 256] by simp
  have e3: "u div 16777216 = u div 65536 div 256"
    using div_mult2_eq [of u 65536 256] by simp
  have 1: "u div 256 * 256 + u mod 256 = u"
    by (rule div_mult_mod_eq)
  have 2: "u div 256 div 256 * 256 + u div 256 mod 256 = u div 256"
    by (rule div_mult_mod_eq)
  have 3: "u div 65536 div 256 * 256 + u div 65536 mod 256 = u div 65536"
    by (rule div_mult_mod_eq)
  show ?thesis
    using 1 2 3 unfolding e3 e2 by linarith
qed

lemma le32_int32_bytes: "le32 (int32_bytes w) = unat w"
proof -
  have u: "unat w < 4294967296"
    using unsigned_less [of w, where 'a = nat] by simp
  have b0: "unat (ucast (signed_drop_bit 0 w AND 0xff) :: byte) = unat w mod 256"
    using byte_of_shift [of 0 w] by simp
  have b1: "unat (ucast (signed_drop_bit 8 w AND 0xff) :: byte) = unat w div 256 mod 256"
    using byte_of_shift [of 8 w] by simp
  have b2: "unat (ucast (signed_drop_bit 16 w AND 0xff) :: byte) = unat w div 65536 mod 256"
    using byte_of_shift [of 16 w] by simp
  have "unat w div 16777216 < 256"
    using u by simp
  then have b3: "unat (ucast (signed_drop_bit 24 w AND 0xff) :: byte) = unat w div 16777216"
    using byte_of_shift [of 24 w] by simp
  have "le32 (int32_bytes w) = unat w mod 256 + 256 * (unat w div 256 mod 256)
      + 65536 * (unat w div 65536 mod 256) + 16777216 * (unat w div 16777216)"
    using b0 b1 b2 b3 by (simp add: le32_def int32_bytes_def)
  then show ?thesis
    by (simp only: base_256)
qed

lemma unat_data_size:
  "unat (ucast (ucast c * n * ucast b :: 64 word) :: 32 word) =
     (unat (c :: 8 word) * unat n * unat (b :: 8 word)) mod 2 ^ 32"
proof -
  have "unat (ucast c * n * ucast b :: 64 word) = (unat c * unat n * unat b) mod 2 ^ 64"
    by (simp add: unat_word_ariths unsigned_ucast_eq take_bit_eq_mod mod_simps)
  moreover have "(x mod 2 ^ 64) mod 2 ^ 32 = x mod 2 ^ 32" for x :: nat
    by (simp add: mod_mod_cancel)
  ultimately show ?thesis
    by (simp add: unsigned_ucast_eq take_bit_eq_mod)
qed

lemma unat_riff_size:
  "unat (ucast (4 + 8 + 16 + 8 + (ucast c * n * ucast b :: 64 word)) :: 32 word) =
     (36 + unat (c :: 8 word) * unat n * unat (b :: 8 word)) mod 2 ^ 32"
proof -
  have "unat (4 + 8 + 16 + 8 + (ucast c * n * ucast b :: 64 word)) =
      (36 + unat c * unat n * unat b) mod 2 ^ 64"
    by (simp add: unat_word_ariths unsigned_ucast_eq take_bit_eq_mod mod_simps)
  moreover have "(x mod 2 ^ 64) mod 2 ^ 32 = x mod 2 ^ 32" for x :: nat
    by (simp add: mod_mod_cancel)
  ultimately show ?thesis
    by (simp add: unsigned_ucast_eq take_bit_eq_mod)
qed

text \<open>
  C9, as the code has it.  The two size fields of the header are 32 bits wide.
  \<^verbatim>\<open>encode_header\<close> writes into the size field of the data chunk the low 32 bits of
  \<open>channel_count * sample_count * sample_bit_size\<close> (a count of bits, not of bytes), and
  into the RIFF chunk size field the low 32 bits of 36 plus that product.
\<close>

theorem wave_header_sizes:
  "le32 (data_size_field (header info e)) =
     (unat (wi_channel_count info) * unat (wi_sample_count info)
        * unat (wi_sample_bit_size info)) mod 2 ^ 32 \<and>
   le32 (riff_size_field (header info e)) =
     (36 + unat (wi_channel_count info) * unat (wi_sample_count info)
        * unat (wi_sample_bit_size info)) mod 2 ^ 32"
  by (simp only: header_fields le32_int32_bytes unat_data_size unat_riff_size)

text \<open>
  C9 as stated fails for long streams: with 2 channels, 16 bits and \<open>2 ^ 27\<close> samples the
  product is \<open>2 ^ 32\<close>, the size field of the data chunk holds 0 and the RIFF chunk size
  field holds 36.
\<close>

theorem wave_header_sizes_counterexample:
  "le32 (data_size_field (header info_long (encoder_init []))) = 0 \<and>
   unat (wi_channel_count info_long) * unat (wi_sample_count info_long)
     * unat (wi_sample_bit_size info_long) = 4294967296 \<and>
   le32 (riff_size_field (header info_long (encoder_init []))) = 36"
  by (simp add: header_fields le32_int32_bytes unat_data_size unat_riff_size info_long_def)

section \<open>Rice codes\<close>

lemma get_bit_pending:
  assumes "pending r = b # bs"
  shows "\<exists>r'. get_bit r = (Inr b, r') \<and> pending r' = bs"
proof (cases "in_bits r")
  case (Cons b' bs')
  with assms show ?thesis
    by (simp add: get_bit_def pending_def)
next
  case Nil
  with assms obtain x xs where "in_source r = x # xs"
    by (cases "in_source r") (simp_all add: pending_def)
  with Nil assms show ?thesis
    by (simp add: get_bit_def pending_def byte_bits_def)
qed

lemma get_bits_pending:
  "pending r = uint_bits n x @ rest \<Longrightarrow>
   \<exists>r'. get_bits n acc r = (Inr (acc * 2 ^ n + x mod 2 ^ n), r') \<and> pending r' = rest"
proof (induction n arbitrary: acc r)
  case 0
  then show ?case by simp
next
  case (Suc n)
  let ?b = "odd (x div 2 ^ n)"
  from Suc.prems have "pending r = ?b # (uint_bits n x @ rest)"
    by simp
  then obtain r1 where g: "get_bit r = (Inr ?b, r1)" and p: "pending r1 = uint_bits n x @ rest"
    using get_bit_pending by blast
  from Suc.IH [OF p, of "2 * acc + of_bool ?b"] obtain r' where
    r': "get_bits n (2 * acc + of_bool ?b) r1 = (Inr ((2 * acc + of_bool ?b) * 2 ^ n + x mod 2 ^ n), r')"
    and rest: "pending r' = rest"
    by blast
  have "x mod 2 ^ Suc n = 2 ^ n * (x div 2 ^ n mod 2) + x mod 2 ^ n"
    using mod_mult2_eq [of x "2 ^ n" 2] by (simp add: mult.commute)
  moreover have "of_bool ?b = x div 2 ^ n mod 2"
    by (simp add: of_bool_odd_eq_mod_2)
  ultimately have "(2 * acc + of_bool ?b) * 2 ^ n + x mod 2 ^ n = acc * 2 ^ Suc n + x mod 2 ^ Suc n"
    by (simp add: algebra_simps)
  with g r' rest show ?case
    by simp
qed

lemma get_uint_pending:
  assumes "pending r = uint_bits n x @ rest" and "x < 2 ^ n"
  shows "\<exists>r'. get_uint n r = (Inr x, r') \<and> pending r' = rest"
  using get_bits_pending [OF assms(1), of 0] assms(2) by (simp add: get_uint_def)

lemma get_uint_1_pending:
  assumes "pending r = b # bs"
  shows "\<exists>r'. get_uint 1 r = (Inr (of_bool b), r') \<and> pending r' = bs"
proof -
  from get_bit_pending [OF assms] obtain r' where "get_bit r = (Inr b, r')" "pending r' = bs"
    by blast
  then show ?thesis
    by (simp add: get_uint_def)
qed

lemma rice_unary_pending:
  "pending r = replicate q False @ True # rest \<Longrightarrow>
   \<exists>r'. rice_unary uval r = (Inr (uval + of_nat q), r') \<and> pending r' = rest"
proof (induction q arbitrary: uval r)
  case 0
  then have "pending r = True # rest"
    by simp
  from get_uint_1_pending [OF this] obtain r' where
    "get_uint 1 r = (Inr 1, r')" "pending r' = rest"
    by auto
  then show ?case
    by (simp add: rice_unary.simps [of uval r])
next
  case (Suc q)
  then have "pending r = False # (replicate q False @ True # rest)"
    by simp
  from get_uint_1_pending [OF this] obtain r1 where
    g: "get_uint 1 r = (Inr 0, r1)" and p: "pending r1 = replicate q False @ True # rest"
    by auto
  from Suc.IH [OF p, of "uval + 1"] obtain r' where
    "rice_unary (uval + 1) r1 = (Inr (uval + 1 + of_nat q), r')" "pending r' = rest"
    by blast
  with g show ?case
    by (simp add: rice_unary.simps [of uval r] add.assoc)
qed

lemma rice_join:
  "push_bit k (word_of_nat (u div 2 ^ k) :: 64 word) OR word_of_nat (u mod 2 ^ k) = word_of_nat u"
proof -
  have "push_bit k (drop_bit k u) OR take_bit k u = u"
    by (rule bit_eqI) (auto simp: bit_simps)
  then have "word_of_nat (push_bit k (drop_bit k u) OR take_bit k u) = (word_of_nat u :: 64 word)"
    by simp
  then show ?thesis
    by (simp only: of_nat_or_eq of_nat_push_bit drop_bit_eq_div take_bit_eq_mod)
qed

lemma unat_of_nat_64: "u < 2 ^ 64 \<Longrightarrow> unat (word_of_nat u :: 64 word) = u"
  by (simp add: unat_of_nat)

lemma drop_bit_1_of_nat:
  assumes "u < 2 ^ 64"
  shows "drop_bit 1 (word_of_nat u :: 64 word) = word_of_nat (u div 2)"
proof -
  have "unat (drop_bit 1 (word_of_nat u :: 64 word)) = u div 2"
    unfolding unat_drop_bit_eq using assms by (simp add: unat_of_nat_64 drop_bit_eq_div)
  moreover have "unat (word_of_nat (u div 2) :: 64 word) = u div 2"
    using assms by (intro unat_of_nat_64) simp
  ultimately show ?thesis
    by (simp add: word_unat_eq_iff)
qed

lemma odd_of_nat_64: "odd (word_of_nat u :: 64 word) \<longleftrightarrow> odd u"
  by simp

lemma rice_sign_nonneg:
  assumes "0 \<le> v" and "v < 2 ^ 31"
  shows "(let uval = (word_of_nat (zigzag v) :: 64 word) in
           if uval AND 1 \<noteq> 0 then - (drop_bit 1 uval) - 1
           else scast (ucast (drop_bit 1 uval) :: 32 word)) = word_of_int v"
proof -
  define n where "n = nat v"
  from assms have n: "n < 2 ^ 31" and v: "v = int n"
    by (simp_all add: n_def)
  have z: "zigzag v = 2 * n"
    using assms by (simp add: zigzag_def n_def)
  have even: "(word_of_nat (2 * n) :: 64 word) AND 1 = 0"
    by (simp add: and_one_eq mod_2_eq_odd)
  have "2 * n < 2 ^ 64"
    using n by simp
  then have d: "drop_bit 1 (word_of_nat (2 * n) :: 64 word) = word_of_nat n"
    using drop_bit_1_of_nat [of "2 * n"] by simp
  have u: "(ucast (word_of_nat n :: 64 word) :: 32 word) = word_of_nat n"
    using n by (simp add: unsigned_of_nat take_bit_nat_eq_self)
  have "signed_take_bit 31 (int n) = int n"
    using n by (intro signed_take_bit_int_eq_self) simp_all
  then have s: "(scast (word_of_nat n :: 32 word) :: 64 word) = word_of_nat n"
    by (simp add: signed_of_nat)
  show ?thesis
    unfolding z Let_def by (simp only: even d u s v) simp
qed

lemma rice_sign_neg:
  assumes "v < 0" and "- (2 ^ 31) \<le> v"
  shows "(let uval = (word_of_nat (zigzag v) :: 64 word) in
           if uval AND 1 \<noteq> 0 then - (drop_bit 1 uval) - 1
           else scast (ucast (drop_bit 1 uval) :: 32 word)) = word_of_int v"
proof -
  define m where "m = nat (- v - 1)"
  from assms have m: "m < 2 ^ 31" and v: "v = - int m - 1"
    by (simp_all add: m_def)
  have z: "zigzag v = 2 * m + 1"
    using assms by (simp add: zigzag_def m_def nat_add_distrib nat_mult_distrib)
  have odd: "(word_of_nat (2 * m + 1) :: 64 word) AND 1 \<noteq> 0"
    by (simp add: and_one_eq mod_2_eq_odd)
  have "2 * m + 1 < 2 ^ 64"
    using m by simp
  then have d: "drop_bit 1 (word_of_nat (2 * m + 1) :: 64 word) = word_of_nat m"
    using drop_bit_1_of_nat [of "2 * m + 1"] by simp
  show ?thesis
    unfolding z Let_def by (simp only: odd d v) simp
qed

text \<open>
  C4.  For every Rice parameter \<open>k\<close> from 0 to 30 and every value \<open>v\<close> of the 32-bit signed
  range, when the bits to be read start with the Rice code of \<open>v\<close>, \<^verbatim>\<open>_get_rice_int(k)\<close>
  returns exactly \<open>v\<close> and leaves the reader right behind the code.
\<close>

theorem rice_round_trip:
  assumes "k \<le> 30" and "- (2 ^ 31) \<le> v" and "v < 2 ^ 31"
    and "pending (d_istream d) = rice_encode k v @ rest"
  shows "(\<exists>r'. get_rice_int k d = (Inr (word_of_int v), d\<lparr>d_istream := r'\<rparr>) \<and>
            pending r' = rest) \<and>
         sint (word_of_int v :: 64 word) = v"
proof -
  have "signed_take_bit 63 v = v"
    using assms(2,3) by (intro signed_take_bit_int_eq_self) simp_all
  then have sv: "sint (word_of_int v :: 64 word) = v"
    by (simp add: sint_sbintrunc')
  let ?u = "zigzag v"
  from assms(4) have "pending (d_istream d) =
      replicate (?u div 2 ^ k) False @ True # (uint_bits k (?u mod 2 ^ k) @ rest)"
    by (simp add: rice_encode_def)
  from rice_unary_pending [OF this, of 0] obtain r1 where
    1: "rice_unary 0 (d_istream d) = (Inr (word_of_nat (?u div 2 ^ k)), r1)"
    and p1: "pending r1 = uint_bits k (?u mod 2 ^ k) @ rest"
    by auto
  from get_uint_pending [OF p1] obtain r2 where
    2: "get_uint k r1 = (Inr (?u mod 2 ^ k), r2)" and p2: "pending r2 = rest"
    by auto
  have k: "\<not> 64 \<le> k"
    using assms(1) by simp
  have sign: "(let uval = (word_of_nat ?u :: 64 word) in
           if uval AND 1 \<noteq> 0 then - (drop_bit 1 uval) - 1
           else scast (ucast (drop_bit 1 uval) :: 32 word)) = word_of_int v"
    using assms(2,3) rice_sign_nonneg [of v] rice_sign_neg [of v] by (cases "0 \<le> v") simp_all
  have "get_rice_int k d = (Inr (word_of_int v), d\<lparr>d_istream := r2\<rparr>)"
    using 1 2 k sign [unfolded Let_def]
    by (simp add: get_rice_int_def bind_def on_istream_def return_def throw_def rice_join
        Let_def split: if_splits)
  with p2 sv show ?thesis
    by blast
qed

lemma uint_bits_numeral:
  "uint_bits (numeral n) x = odd (x div 2 ^ pred_numeral n) # uint_bits (pred_numeral n) x"
  by (simp add: numeral_eq_Suc)

lemma rice_example_bits:
  "pending (d_istream (decoder_init 4 [0x50])) =
     rice_encode 2 (- 3) @ [False, False, False, False]"
  by (simp add: pending_def decoder_init_def bit_input_init_def byte_bits_def rice_encode_def
      zigzag_def uint_bits_numeral)

theorem rice_round_trip_witness:
  "(2::nat) \<le> 30 \<and> - (2 ^ 31) \<le> (- 3 :: int) \<and> (- 3 :: int) < 2 ^ 31 \<and>
   pending (d_istream (decoder_init 4 [0x50])) =
     rice_encode 2 (- 3) @ [False, False, False, False] \<and>
   fst (get_rice_int 2 (decoder_init 4 [0x50])) = Inr (- 3) \<and>
   pending (d_istream (snd (get_rice_int 2 (decoder_init 4 [0x50])))) =
     [False, False, False, False]"
proof -
  have k: "(2::nat) \<le> 30" and lo: "- (2 ^ 31) \<le> (- 3 :: int)" and hi: "(- 3 :: int) < 2 ^ 31"
    by simp_all
  from rice_round_trip [OF k lo hi rice_example_bits] obtain r' where
    "get_rice_int 2 (decoder_init 4 [0x50]) =
       (Inr (word_of_int (- 3)), (decoder_init 4 [0x50])\<lparr>d_istream := r'\<rparr>)"
    and "pending r' = [False, False, False, False]"
    by blast
  then show ?thesis
    using k lo hi rice_example_bits by simp
qed

end
